theory Spec2Isabelle
  imports Complex_Main "HOL-Library.Multiset" "HOL-Library.Sublist"
begin

text \<open>
  SnapMerch: the vehicle classifier and style ranker (\<open>services/stylePriority.ts\<close>), the
  batched generation of styles (\<open>generateAllStyles\<close> of \<open>services/api.ts\<close>) and the session
  store (\<open>services/storage.ts\<close>), as functions of HOL. What a function throws is a value
  \<open>Inl\<close> of its result; what it changes is a state it takes and returns; what it reads
  from the browser or from a remote service is a parameter.
\<close>

section \<open>JavaScript strings\<close>

text \<open>
  A string is a list of characters, each a UTF-16 code unit below 256 (the Latin-1
  range). In that range \<open>toLowerCase\<close> lowers the letters \<open>A\<close> to \<open>Z\<close> and the accented
  capitals 0xC0 to 0xDE, the multiplication sign 0xD7 apart; the white space that \<open>trim\<close>
  and \<open>parseInt\<close> skip is tab, line feed, vertical tab, form feed, carriage return, space
  and the no-break space 0xA0.
\<close>

definition isWhiteSpace :: "char \<Rightarrow> bool" where
  "isWhiteSpace c = (of_char c \<in> {9::nat, 10, 11, 12, 13, 32, 160})"

definition isDigit :: "char \<Rightarrow> bool" where
  "isDigit c = (48 \<le> (of_char c :: nat) \<and> (of_char c :: nat) \<le> 57)"

definition isUpper :: "char \<Rightarrow> bool" where
  "isUpper c =
     ((65 \<le> (of_char c :: nat) \<and> (of_char c :: nat) \<le> 90)
      \<or> (192 \<le> (of_char c :: nat) \<and> (of_char c :: nat) \<le> 222 \<and> (of_char c :: nat) \<noteq> 215))"

definition lowerChar :: "char \<Rightarrow> char" where
  "lowerChar c = (if isUpper c then char_of ((of_char c :: nat) + 32) else c)"

definition toLowerCase :: "string \<Rightarrow> string" where
  "toLowerCase s = map lowerChar s"

definition trim :: "string \<Rightarrow> string" where
  "trim s = rev (dropWhile isWhiteSpace (rev (dropWhile isWhiteSpace s)))"

fun startsWith :: "string \<Rightarrow> string \<Rightarrow> bool" where
  "startsWith s [] = True"
| "startsWith [] (m # ms) = False"
| "startsWith (c # cs) (m # ms) = (c = m \<and> startsWith cs ms)"

text \<open>\<open>includes_str s m\<close> is \<open>s.includes(m)\<close>: \<open>m\<close> occurs in \<open>s\<close> as a contiguous run.\<close>

fun includes_str :: "string \<Rightarrow> string \<Rightarrow> bool" where
  "includes_str [] m = startsWith [] m"
| "includes_str (c # cs) m = (startsWith (c # cs) m \<or> includes_str cs m)"

definition digitsValue :: "string \<Rightarrow> int" where
  "digitsValue ds = foldl (\<lambda>a c. 10 * a + (int (of_char c) - 48)) 0 ds"

text \<open>
  \<open>parseInt(s, 10)\<close>: leading white space is skipped, one sign is read, then the longest
  run of decimal digits; with no digit the result is NaN, here \<open>None\<close>. The value is kept
  as an unbounded integer (the double that JavaScript rounds a very long digit run to
  compares the same way with the year bounds of the classifier).
\<close>

definition parseInt10 :: "string \<Rightarrow> int option" where
  "parseInt10 s =
     (let t = dropWhile isWhiteSpace s;
          neg = (case t of [] \<Rightarrow> False | c # r \<Rightarrow> c = CHR ''-'');
          u = (case t of [] \<Rightarrow> [] | c # r \<Rightarrow> if c = CHR ''-'' \<or> c = CHR ''+'' then r else t);
          ds = takeWhile isDigit u
      in if ds = [] then None
         else Some (if neg then - digitsValue ds else digitsValue ds))"

section \<open>types.ts: the style catalog\<close>

record Color =
  color_name :: string
  color_hex :: string

text \<open>
  \<open>CarIdentity\<close>. The fields \<open>year\<close>, \<open>make\<close> and \<open>model\<close> are declared \<open>string\<close>; the
  value comes from the analysis endpoint, and the classifier guards \<open>make\<close> and \<open>model\<close>
  with \<open>|| ''\<close>, so a field may be absent here (\<open>None\<close>, for \<open>undefined\<close>).
\<close>

record CarIdentity =
  ci_year :: "string option"
  ci_make :: "string option"
  ci_model :: "string option"
  ci_trim :: string
  ci_color :: Color

datatype SnapMerchStyle =
  Vector | Retro | Calligram | Neon | Watercolor | Comic | Blueprint | PopArt
  | Pencil | Neon80s | LowriderArt | Japanese

text \<open>The emoji of an entry is kept as its list of Unicode code points.\<close>

record StyleConfig =
  cfg_id :: SnapMerchStyle
  label :: string
  emoji :: "nat list"
  artStyle :: string
  cfg_color :: "string option"
  backgroundColor :: "string option"

definition mkStyle :: "SnapMerchStyle \<Rightarrow> string \<Rightarrow> nat list \<Rightarrow> string \<Rightarrow> string \<Rightarrow> StyleConfig" where
  "mkStyle i l e a b =
     \<lparr>cfg_id = i, label = l, emoji = e, artStyle = a, cfg_color = None, backgroundColor = Some b\<rparr>"

definition STYLE_CONFIGS :: "StyleConfig list" where
  "STYLE_CONFIGS =
     [mkStyle Vector ''Vector'' [0x1F3AF] ''Vector (Monochromatic)'' ''#FFFFFF'',
      mkStyle Retro ''Retro Poster'' [0x1F3A8] ''Vintage Poster'' ''#FFFFFF'',
      mkStyle Calligram ''Typography'' [0x270D, 0xFE0F] ''Distressed'' ''#FFFFFF'',
      mkStyle Neon ''Neon Glow'' [0x1F4A1] ''Neon Sign'' ''#000000'',
      mkStyle Watercolor ''Watercolor'' [0x1F3A8] ''Watercolor'' ''#FFFFFF'',
      mkStyle Comic ''Comic Book'' [0x1F4A5] ''Comic Book'' ''#FFFFFF'',
      mkStyle Blueprint ''Blueprint'' [0x1F4D0] ''Blueprint Style'' ''#003366'',
      mkStyle PopArt ''Pop Art'' [0x1F3AD] ''Pop Art'' ''#FFFFFF'',
      mkStyle Pencil ''Pencil Sketch'' [0x270F, 0xFE0F] ''Pencil Sketch'' ''#FFFFFF'',
      mkStyle Neon80s ''80s Synthwave'' [0x1F306] ''Synthwave 80s'' ''#1a0033'',
      mkStyle LowriderArt ''Lowrider Art'' [0x1F50A] ''Lowrider Airbrush'' ''#FFFFFF'',
      mkStyle Japanese ''JDM Style'' [0x1F5FE] ''JDM Japanese'' ''#000000'']"

section \<open>services/stylePriority.ts\<close>

definition JDM_MAKES :: "string list" where
  "JDM_MAKES = [''honda'', ''toyota'', ''nissan'', ''subaru'', ''mazda'', ''mitsubishi'',
     ''lexus'', ''acura'', ''infiniti'', ''datsun'']"

definition LOWRIDER_MODELS :: "string list" where
  "LOWRIDER_MODELS = [''impala'', ''monte carlo'', ''regal'', ''cutlass'', ''el camino'',
     ''caprice'', ''fleetwood'', ''lacrosse'', ''riviera'', ''skylark'', ''lesabre'',
     ''deville'', ''town car'', ''crown victoria'', ''grand prix'']"

definition LOWRIDER_MAKES :: "string list" where
  "LOWRIDER_MAKES = [''chevrolet'', ''chevy'', ''buick'', ''oldsmobile'', ''cadillac'',
     ''lincoln'', ''pontiac'', ''ford'']"

definition TRUCK_KEYWORDS :: "string list" where
  "TRUCK_KEYWORDS = [''truck'', ''pickup'', ''f-150'', ''f-250'', ''f-350'', ''silverado'',
     ''sierra'', ''ram'', ''tundra'', ''titan'', ''tacoma'', ''frontier'', ''ranger'',
     ''colorado'', ''canyon'', ''ridgeline'', ''gladiator'', ''maverick'', ''raptor'']"

definition SPORTS_EXOTIC_MAKES :: "string list" where
  "SPORTS_EXOTIC_MAKES = [''ferrari'', ''lamborghini'', ''porsche'', ''mclaren'', ''bugatti'',
     ''koenigsegg'', ''pagani'', ''aston martin'', ''lotus'', ''maserati'']"

definition SPORTS_MODELS :: "string list" where
  "SPORTS_MODELS = [''corvette'', ''camaro'', ''mustang'', ''supra'', ''gtr'', ''gt-r'',
     ''nsx'', ''rx-7'', ''rx7'', ''brz'', ''gr86'', ''86'', ''miata'', ''mx-5'', ''wrx'',
     ''sti'', ''evo'', ''lancer evolution'', ''challenger'', ''charger'', ''viper'', ''z06'',
     ''zr1'', ''shelby'', ''gt350'', ''gt500'', ''amg'', ''m3'', ''m4'', ''m5'', ''rs3'',
     ''rs5'', ''rs6'', ''rs7'', ''911'', ''cayman'', ''boxster'', ''panamera'', ''type r'',
     ''civic si'', ''s2000'']"

datatype VehicleCategory =
  Pre1980Classic | Eighties90s | Truck | Jdm | Lowrider | ModernSports | Default

text \<open>\<open>parseInt(identity.year, 10) || 0\<close>: an absent year is read as the text
  \<open>undefined\<close>; NaN and 0 both give 0.\<close>

definition yearOf :: "CarIdentity \<Rightarrow> int" where
  "yearOf identity =
     (case parseInt10 (case ci_year identity of None \<Rightarrow> ''undefined'' | Some s \<Rightarrow> s) of
        None \<Rightarrow> 0 | Some n \<Rightarrow> n)"

text \<open>\<open>(identity.make || '').toLowerCase().trim()\<close>, and the same for the model.\<close>

definition makeOf :: "CarIdentity \<Rightarrow> string" where
  "makeOf identity = trim (toLowerCase (case ci_make identity of None \<Rightarrow> [] | Some s \<Rightarrow> s))"

definition modelOf :: "CarIdentity \<Rightarrow> string" where
  "modelOf identity = trim (toLowerCase (case ci_model identity of None \<Rightarrow> [] | Some s \<Rightarrow> s))"

definition fullNameOf :: "CarIdentity \<Rightarrow> string" where
  "fullNameOf identity = makeOf identity @ '' '' @ modelOf identity"

definition lowriderRule :: "CarIdentity \<Rightarrow> bool" where
  "lowriderRule identity =
     (yearOf identity \<ge> 1958 \<and> yearOf identity \<le> 1985
      \<and> list_ex (\<lambda>m. includes_str (modelOf identity) m) LOWRIDER_MODELS
      \<and> makeOf identity \<in> set LOWRIDER_MAKES)"

definition jdmRule :: "CarIdentity \<Rightarrow> bool" where
  "jdmRule identity = (makeOf identity \<in> set JDM_MAKES)"

definition truckRule :: "CarIdentity \<Rightarrow> bool" where
  "truckRule identity = list_ex (\<lambda>k. includes_str (fullNameOf identity) k) TRUCK_KEYWORDS"

definition modernSportsRule :: "CarIdentity \<Rightarrow> bool" where
  "modernSportsRule identity =
     (yearOf identity \<ge> 2010
      \<and> (list_ex (\<lambda>m. includes_str (makeOf identity) m) SPORTS_EXOTIC_MAKES
         \<or> list_ex (\<lambda>m. includes_str (modelOf identity) m) SPORTS_MODELS))"

definition categorizeVehicle :: "CarIdentity \<Rightarrow> VehicleCategory" where
  "categorizeVehicle identity =
     (if lowriderRule identity then Lowrider
      else if jdmRule identity then Jdm
      else if truckRule identity then Truck
      else if modernSportsRule identity then ModernSports
      else if yearOf identity > 0 \<and> yearOf identity < 1980 then Pre1980Classic
      else if yearOf identity \<ge> 1980 \<and> yearOf identity \<le> 1999 then Eighties90s
      else Default)"

fun PRIORITY_MAP :: "VehicleCategory \<Rightarrow> SnapMerchStyle list" where
  "PRIORITY_MAP Pre1980Classic =
     [Retro, Pencil, Watercolor, Vector, PopArt, Blueprint, Calligram, Neon, Comic,
      LowriderArt, Neon80s, Japanese]"
| "PRIORITY_MAP Eighties90s =
     [Neon80s, Retro, Neon, Comic, Vector, PopArt, Calligram, Watercolor, Pencil,
      Blueprint, LowriderArt, Japanese]"
| "PRIORITY_MAP Truck =
     [Vector, Blueprint, Retro, Watercolor, Pencil, Calligram, Neon, Comic, PopArt,
      Neon80s, LowriderArt, Japanese]"
| "PRIORITY_MAP Jdm =
     [Japanese, Neon, Comic, Neon80s, Vector, PopArt, Retro, Calligram, Watercolor,
      Pencil, Blueprint, LowriderArt]"
| "PRIORITY_MAP Lowrider =
     [LowriderArt, PopArt, Retro, Neon, Calligram, Watercolor, Vector, Pencil, Comic,
      Blueprint, Neon80s, Japanese]"
| "PRIORITY_MAP ModernSports =
     [Neon, Vector, Comic, Neon80s, PopArt, Calligram, Retro, Blueprint, Watercolor,
      Pencil, LowriderArt, Japanese]"
| "PRIORITY_MAP Default =
     [Vector, Retro, Neon, Comic, Calligram, Watercolor, PopArt, Pencil, Blueprint,
      Neon80s, LowriderArt, Japanese]"

text \<open>\<open>new Map(STYLE_CONFIGS.map(c => [c.id, c]))\<close>: a later entry replaces an earlier
  one with the same key.\<close>

definition configMap :: "SnapMerchStyle \<rightharpoonup> StyleConfig" where
  "configMap = fold (\<lambda>c m. m(cfg_id c \<mapsto> c)) STYLE_CONFIGS Map.empty"

text \<open>The first loop of \<open>getPrioritizedStyles\<close>: push the config of every id that the
  map resolves.\<close>

fun pushResolved :: "StyleConfig list \<Rightarrow> SnapMerchStyle list \<Rightarrow> StyleConfig list" where
  "pushResolved ordered [] = ordered"
| "pushResolved ordered (i # rest) =
     pushResolved (case configMap i of None \<Rightarrow> ordered | Some cfg \<Rightarrow> ordered @ [cfg]) rest"

text \<open>The second loop: push every catalog entry whose id is not yet in \<open>ordered\<close>.\<close>

fun appendRemaining :: "StyleConfig list \<Rightarrow> StyleConfig list \<Rightarrow> StyleConfig list" where
  "appendRemaining ordered [] = ordered"
| "appendRemaining ordered (cfg # rest) =
     appendRemaining
       (if find (\<lambda>p. cfg_id p = cfg_id cfg) ordered = None then ordered @ [cfg] else ordered)
       rest"

definition orderedStyles :: "VehicleCategory \<Rightarrow> StyleConfig list" where
  "orderedStyles category =
     appendRemaining (pushResolved [] (PRIORITY_MAP category)) STYLE_CONFIGS"

definition getPrioritizedStyles :: "CarIdentity \<Rightarrow> StyleConfig list" where
  "getPrioritizedStyles identity = orderedStyles (categorizeVehicle identity)"

section \<open>types.ts: sessions\<close>

datatype GenStatus = StIdle | StGenerating | StDone | StError

record GeneratedStyle =
  gs_styleId :: SnapMerchStyle
  gs_imageUrl :: "string option"
  gs_status :: GenStatus
  gs_error :: "string option"

record MockupResult =
  mr_productId :: string
  mr_styleId :: SnapMerchStyle
  mr_imageUrl :: "string option"
  mr_status :: GenStatus

record OrderItem =
  oi_productId :: string
  oi_styleId :: SnapMerchStyle
  oi_size :: "string option"
  oi_color :: "string option"
  oi_price :: rat

record ShippingAddress =
  firstName :: string
  lastName :: string
  address1 :: string
  address2 :: string
  city :: string
  state :: string
  zipCode :: string
  country :: string

datatype OrderStatus = Pending | Confirmed | Fulfilled

record Order =
  ord_id :: string
  carSessionId :: string
  items :: "OrderItem list"
  customerEmail :: string
  customerName :: "string option"
  customerPhone :: "string option"
  shippingAddress :: "ShippingAddress option"
  paymentId :: "string option"
  ord_status :: OrderStatus
  ord_createdAt :: int

record CarSession =
  car_id :: string
  photoBase64 :: string
  photoThumbnail :: "string option"
  car_identity :: "CarIdentity option"
  styles :: "GeneratedStyle list"
  mockups :: "MockupResult list"
  orders :: "Order list"
  car_createdAt :: int
  shareUrl :: "string option"

record EventSession =
  ev_id :: string
  ev_name :: string
  ev_date :: string
  cars :: "CarSession list"
  ev_createdAt :: int

text \<open>\<open>Partial<CarSession>\<close>: every field is either absent (\<open>None\<close>) or given.\<close>

record CarSessionUpdate =
  u_id :: "string option"
  u_photoBase64 :: "string option"
  u_photoThumbnail :: "string option option"
  u_identity :: "CarIdentity option option"
  u_styles :: "GeneratedStyle list option"
  u_mockups :: "MockupResult list option"
  u_orders :: "Order list option"
  u_createdAt :: "int option"
  u_shareUrl :: "string option option"

section \<open>The browser: localStorage, clock, random ids\<close>

datatype js_error = QuotaExceededError | SyntaxError | NetworkError string

text \<open>
  The text held under a localStorage key is the empty string, a non-empty text on which
  \<open>JSON.parse\<close> throws, or the JSON text of an event session; \<open>JSON.parse\<close> of the latter
  gives the session back.
\<close>

datatype stored_text = EmptyText | Unparsable | SessionJson EventSession

definition JSON_stringify :: "EventSession \<Rightarrow> stored_text" where
  "JSON_stringify session = SessionJson session"

fun JSON_parse :: "stored_text \<Rightarrow> js_error + EventSession" where
  "JSON_parse (SessionJson session) = Inr session"
| "JSON_parse Unparsable = Inl SyntaxError"
| "JSON_parse EmptyText = Inl SyntaxError"

text \<open>
  The environment of one call: \<open>quota t\<close> tells whether \<open>localStorage.setItem\<close> accepts
  the text \<open>t\<close> (otherwise it throws), \<open>today\<close> is
  \<open>new Date().toISOString().split('T')[0]\<close>, \<open>now\<close> is \<open>Date.now()\<close> and \<open>newId\<close> is
  what \<open>generateId()\<close> returns.
\<close>

record browser_env =
  quota :: "stored_text \<Rightarrow> bool"
  today :: string
  now :: int
  newId :: string

text \<open>
  The state of the storage service: the localStorage items, the module variable
  \<open>_userId\<close>, and two logs: every text handed to \<open>setItem\<close> for the session key
  (accepted or not), and every session handed to \<open>syncEventToSupabase\<close>.
\<close>

record app_state =
  storage :: "string \<rightharpoonup> stored_text"
  userId :: "string option"
  setItemCalls :: "stored_text list"
  syncCalls :: "EventSession list"

definition EVENT_SESSION :: string where
  "EVENT_SESSION = ''snapmerch_event_session''"

definition getItem :: "app_state \<Rightarrow> string \<Rightarrow> stored_text option" where
  "getItem st k = storage st k"

text \<open>\<open>logSetItem\<close> notes that \<open>setItem\<close> is called with a text; \<open>setItem\<close> itself stores
  the text or throws, leaving the items as they were.\<close>

definition logSetItem :: "stored_text \<Rightarrow> app_state \<Rightarrow> app_state" where
  "logSetItem t st = st\<lparr>setItemCalls := setItemCalls st @ [t]\<rparr>"

definition setItem :: "browser_env \<Rightarrow> string \<Rightarrow> stored_text \<Rightarrow> app_state \<Rightarrow> js_error + app_state" where
  "setItem env k t st =
     (if quota env t then Inr (st\<lparr>storage := (storage st)(k \<mapsto> t)\<rparr>)
      else Inl QuotaExceededError)"

definition removeItem :: "string \<Rightarrow> app_state \<Rightarrow> app_state" where
  "removeItem k st = st\<lparr>storage := (storage st)(k := None)\<rparr>"

text \<open>A string is truthy when it is present and not empty.\<close>

fun truthy :: "string option \<Rightarrow> bool" where
  "truthy None = False"
| "truthy (Some s) = (s \<noteq> [])"

text \<open>\<open>s || ''\<close>\<close>

fun orEmpty :: "string option \<Rightarrow> string" where
  "orEmpty None = []"
| "orEmpty (Some s) = s"

text \<open>\<open>s || undefined\<close> (and \<open>s || null\<close>)\<close>

fun orUndefined :: "string option \<Rightarrow> string option" where
  "orUndefined None = None"
| "orUndefined (Some s) = (if s = [] then None else Some s)"

section \<open>services/storage.ts\<close>

definition isLargeDataUrl :: "string option \<Rightarrow> bool" where
  "isLargeDataUrl s =
     (case s of None \<Rightarrow> False
      | Some u \<Rightarrow> if u = [] then False else startsWith u ''data:'' \<and> length u > 500)"

definition stripStyle :: "GeneratedStyle \<Rightarrow> GeneratedStyle" where
  "stripStyle s =
     s\<lparr>gs_imageUrl := Some (if isLargeDataUrl (gs_imageUrl s) then [] else orEmpty (gs_imageUrl s))\<rparr>"

definition stripMockup :: "MockupResult \<Rightarrow> MockupResult" where
  "stripMockup m =
     m\<lparr>mr_imageUrl := Some (if isLargeDataUrl (mr_imageUrl m) then [] else orEmpty (mr_imageUrl m))\<rparr>"

definition stripCar :: "CarSession \<Rightarrow> CarSession" where
  "stripCar car =
     car\<lparr>photoBase64 := [],
         photoThumbnail :=
           Some (if truthy (photoThumbnail car) \<and> length (orEmpty (photoThumbnail car)) < 15000
                 then orEmpty (photoThumbnail car) else []),
         styles := map stripStyle (styles car),
         mockups := map stripMockup (mockups car)\<rparr>"

text \<open>The object \<open>stripped\<close> that \<open>saveEventSession\<close> writes first.\<close>

definition stripped :: "EventSession \<Rightarrow> EventSession" where
  "stripped session = session\<lparr>cars := map stripCar (cars session)\<rparr>"

text \<open>\<open>stripped\<close> after \<open>stripped.cars = stripped.cars.slice(0, 3)\<close> and the blanking of
  every thumbnail: what the retry writes.\<close>

definition trimmed :: "EventSession \<Rightarrow> EventSession" where
  "trimmed session =
     (stripped session)\<lparr>cars :=
        map (\<lambda>c. c\<lparr>photoThumbnail := Some []\<rparr>) (take 3 (cars (stripped session)))\<rparr>"

text \<open>The write part of \<open>saveEventSession\<close>: the two nested \<open>try\<close> blocks.\<close>

definition writeSession :: "browser_env \<Rightarrow> EventSession \<Rightarrow> app_state \<Rightarrow> js_error + app_state" where
  "writeSession env session st =
     (let t1 = JSON_stringify (stripped session); st1 = logSetItem t1 st
      in case setItem env EVENT_SESSION t1 st1 of
           Inr st1' \<Rightarrow> Inr st1'
         | Inl e \<Rightarrow>
             (let t2 = JSON_stringify (trimmed session); st2 = logSetItem t2 st1
              in case setItem env EVENT_SESSION t2 st2 of
                   Inr st2' \<Rightarrow> Inr st2'
                 | Inl e' \<Rightarrow> Inr (removeItem EVENT_SESSION st2)))"

text \<open>The background sync is started with the session as given and is not awaited; a
  rejection is caught by its \<open>.catch\<close> handler.\<close>

definition saveEventSession :: "browser_env \<Rightarrow> EventSession \<Rightarrow> app_state \<Rightarrow> js_error + app_state" where
  "saveEventSession env session st =
     (case writeSession env session st of
        Inl e \<Rightarrow> Inl e
      | Inr st1 \<Rightarrow>
          Inr (if truthy (userId st1) then st1\<lparr>syncCalls := syncCalls st1 @ [session]\<rparr> else st1))"

definition createNewEventSession :: "browser_env \<Rightarrow> app_state \<Rightarrow> js_error + EventSession \<times> app_state" where
  "createNewEventSession env st =
     (let session = \<lparr>ev_id = newId env, ev_name = ''Cars & Coffee'', ev_date = today env,
                     cars = [], ev_createdAt = now env\<rparr>
      in case saveEventSession env session st of
           Inl e \<Rightarrow> Inl e
         | Inr st1 \<Rightarrow> Inr (session, st1))"

text \<open>The \<open>try\<close> block of \<open>getEventSession\<close>: \<open>Some\<close> is its early return.\<close>

definition readStoredSession :: "browser_env \<Rightarrow> app_state \<Rightarrow> js_error + EventSession option" where
  "readStoredSession env st =
     (case getItem st EVENT_SESSION of
        None \<Rightarrow> Inr None
      | Some t \<Rightarrow>
          if t = EmptyText then Inr None
          else (case JSON_parse t of
                  Inl e \<Rightarrow> Inl e
                | Inr session \<Rightarrow>
                    if ev_date session = today env then Inr (Some session) else Inr None))"

definition getEventSession :: "browser_env \<Rightarrow> app_state \<Rightarrow> js_error + EventSession \<times> app_state" where
  "getEventSession env st =
     (case readStoredSession env st of
        Inr (Some session) \<Rightarrow> Inr (session, st)
      | Inr None \<Rightarrow> createNewEventSession env st
      | Inl e \<Rightarrow> createNewEventSession env (removeItem EVENT_SESSION st))"

text \<open>\<open>xs.findIndex(p)\<close>, with \<open>None\<close> for \<open>-1\<close>.\<close>

fun findIndex :: "('a \<Rightarrow> bool) \<Rightarrow> 'a list \<Rightarrow> nat option" where
  "findIndex p [] = None"
| "findIndex p (x # xs) =
     (if p x then Some 0 else (case findIndex p xs of None \<Rightarrow> None | Some i \<Rightarrow> Some (Suc i)))"

text \<open>\<open>{ ...car, ...update }\<close>\<close>

definition mergeCar :: "CarSession \<Rightarrow> CarSessionUpdate \<Rightarrow> CarSession" where
  "mergeCar car u =
     \<lparr>car_id = (case u_id u of None \<Rightarrow> car_id car | Some v \<Rightarrow> v),
      photoBase64 = (case u_photoBase64 u of None \<Rightarrow> photoBase64 car | Some v \<Rightarrow> v),
      photoThumbnail = (case u_photoThumbnail u of None \<Rightarrow> photoThumbnail car | Some v \<Rightarrow> v),
      car_identity = (case u_identity u of None \<Rightarrow> car_identity car | Some v \<Rightarrow> v),
      styles = (case u_styles u of None \<Rightarrow> styles car | Some v \<Rightarrow> v),
      mockups = (case u_mockups u of None \<Rightarrow> mockups car | Some v \<Rightarrow> v),
      orders = (case u_orders u of None \<Rightarrow> orders car | Some v \<Rightarrow> v),
      car_createdAt = (case u_createdAt u of None \<Rightarrow> car_createdAt car | Some v \<Rightarrow> v),
      shareUrl = (case u_shareUrl u of None \<Rightarrow> shareUrl car | Some v \<Rightarrow> v)\<rparr>"

definition updateCarSession ::
    "browser_env \<Rightarrow> string \<Rightarrow> CarSessionUpdate \<Rightarrow> app_state \<Rightarrow> js_error + EventSession \<times> app_state" where
  "updateCarSession env carId update st =
     (case getEventSession env st of
        Inl e \<Rightarrow> Inl e
      | Inr (session, st1) \<Rightarrow>
          (case findIndex (\<lambda>c. car_id c = carId) (cars session) of
             None \<Rightarrow> Inr (session, st1)
           | Some idx \<Rightarrow>
               (let session' = session\<lparr>cars := (cars session)[idx := mergeCar (cars session ! idx) update]\<rparr>
                in case saveEventSession env session' st1 of
                     Inl e \<Rightarrow> Inl e
                   | Inr st2 \<Rightarrow> Inr (session', st2))))"

section \<open>services/storage.ts: loading from Supabase\<close>

text \<open>
  A Supabase query resolves to an object with \<open>data\<close> and \<open>error\<close> (\<open>Inr\<close>), or the
  awaited call throws (\<open>Inl\<close>). The timestamp columns are kept as the milliseconds that
  \<open>new Date(created_at).getTime()\<close> yields.
\<close>

record 'a reply =
  data :: "'a list option"
  error :: "string option"

record event_row =
  er_id :: string
  er_name :: string
  er_date :: string
  er_created_at :: int

record car_row =
  cr_id :: string
  cr_photo_thumbnail :: "string option"
  cr_identity :: "CarIdentity option"
  cr_share_url :: "string option"
  cr_created_at :: int

record style_row =
  sr_car_id :: string
  sr_style_id :: SnapMerchStyle
  sr_image_url :: "string option"
  sr_status :: "GenStatus option"
  sr_error :: "string option"

record order_row =
  or_id :: string
  or_car_id :: string
  or_items :: "OrderItem list option"
  or_customer_email :: string
  or_customer_name :: "string option"
  or_customer_phone :: "string option"
  or_shipping_address :: "ShippingAddress option"
  or_payment_id :: "string option"
  or_status :: OrderStatus
  or_created_at :: int

text \<open>The client returned by \<open>getSupabase()\<close>, as the four reads that
  \<open>loadEventFromSupabase\<close> makes: events of a user and date (newest first, at most one),
  cars of an event, styles and orders of a list of car ids.\<close>

record supabase =
  selectEvents :: "string \<Rightarrow> string \<Rightarrow> js_error + event_row reply"
  selectCars :: "string \<Rightarrow> js_error + car_row reply"
  selectStyles :: "string list \<Rightarrow> js_error + style_row reply"
  selectOrders :: "string list \<Rightarrow> js_error + order_row reply"

text \<open>The loop that fills \<open>stylesMap\<close> and \<open>ordersMap\<close>: rows grouped by car id.\<close>

definition groupRows :: "('r \<Rightarrow> string) \<Rightarrow> 'r list \<Rightarrow> (string \<rightharpoonup> 'r list)" where
  "groupRows key rows =
     fold (\<lambda>r m. m(key r \<mapsto> (case m (key r) of None \<Rightarrow> [] | Some l \<Rightarrow> l) @ [r])) rows Map.empty"

definition rowsOf :: "(string \<rightharpoonup> 'r list) \<Rightarrow> string \<Rightarrow> 'r list" where
  "rowsOf m k = (case m k of None \<Rightarrow> [] | Some l \<Rightarrow> l)"

definition styleOfRow :: "style_row \<Rightarrow> GeneratedStyle" where
  "styleOfRow s =
     \<lparr>gs_styleId = sr_style_id s,
      gs_imageUrl = Some (orEmpty (sr_image_url s)),
      gs_status = (case sr_status s of None \<Rightarrow> StIdle | Some v \<Rightarrow> v),
      gs_error = orUndefined (sr_error s)\<rparr>"

definition orderOfRow :: "order_row \<Rightarrow> Order" where
  "orderOfRow r =
     \<lparr>ord_id = or_id r,
      carSessionId = or_car_id r,
      items = (case or_items r of None \<Rightarrow> [] | Some v \<Rightarrow> v),
      customerEmail = or_customer_email r,
      customerName = orUndefined (or_customer_name r),
      customerPhone = orUndefined (or_customer_phone r),
      shippingAddress = or_shipping_address r,
      paymentId = orUndefined (or_payment_id r),
      ord_status = or_status r,
      ord_createdAt = or_created_at r\<rparr>"

definition carOfRow :: "(string \<rightharpoonup> style_row list) \<Rightarrow> (string \<rightharpoonup> order_row list) \<Rightarrow> car_row \<Rightarrow> CarSession" where
  "carOfRow stylesMap ordersMap car =
     \<lparr>car_id = cr_id car,
      photoBase64 = [],
      photoThumbnail = Some (orEmpty (cr_photo_thumbnail car)),
      car_identity = cr_identity car,
      styles = map styleOfRow (rowsOf stylesMap (cr_id car)),
      mockups = [],
      orders = map orderOfRow (rowsOf ordersMap (cr_id car)),
      car_createdAt = cr_created_at car,
      shareUrl = orUndefined (cr_share_url car)\<rparr>"

definition buildSession :: "event_row \<Rightarrow> car_row list \<Rightarrow> style_row list \<Rightarrow> order_row list \<Rightarrow> EventSession" where
  "buildSession ev carRows allStyles allOrders =
     \<lparr>ev_id = er_id ev, ev_name = er_name ev, ev_date = er_date ev,
      cars = map (carOfRow (groupRows sr_car_id allStyles) (groupRows or_car_id allOrders)) carRows,
      ev_createdAt = er_created_at ev\<rparr>"

text \<open>\<open>carIds.length > 0 ? carIds : ['__none__']\<close>\<close>

definition idsOrNone :: "string list \<Rightarrow> string list" where
  "idsOrNone carIds = (if length carIds > 0 then carIds else [''__none__''])"

text \<open>\<open>try { localStorage.setItem(...) } catch {}\<close>\<close>

definition cacheSession :: "browser_env \<Rightarrow> EventSession \<Rightarrow> app_state \<Rightarrow> app_state" where
  "cacheSession env session st =
     (let t = JSON_stringify session; st1 = logSetItem t st
      in case setItem env EVENT_SESSION t st1 of Inr st2 \<Rightarrow> st2 | Inl e \<Rightarrow> st1)"

text \<open>The body of the \<open>try\<close> block of \<open>loadEventFromSupabase\<close>.\<close>

definition loadBody ::
    "supabase \<Rightarrow> string \<Rightarrow> browser_env \<Rightarrow> app_state \<Rightarrow> js_error + EventSession option \<times> app_state" where
  "loadBody client uid env st =
     (case selectEvents client uid (today env) of
        Inl e \<Rightarrow> Inl e
      | Inr evs \<Rightarrow>
          (case (error evs, data evs) of
             (Some evError, _) \<Rightarrow> Inr (None, st)
           | (None, None) \<Rightarrow> Inr (None, st)
           | (None, Some []) \<Rightarrow> Inr (None, st)
           | (None, Some (ev # _)) \<Rightarrow>
               (case selectCars client (er_id ev) of
                  Inl e \<Rightarrow> Inl e
                | Inr crs \<Rightarrow>
                    (case (error crs, data crs) of
                       (Some carsError, _) \<Rightarrow> Inr (None, st)
                     | (None, None) \<Rightarrow> Inr (None, st)
                     | (None, Some carRows) \<Rightarrow>
                         (let carIds = map cr_id carRows
                          in case selectStyles client (idsOrNone carIds) of
                               Inl e \<Rightarrow> Inl e
                             | Inr srs \<Rightarrow>
                                 (let allStyles = (case data srs of None \<Rightarrow> [] | Some l \<Rightarrow> l)
                                  in case selectOrders client (idsOrNone carIds) of
                                       Inl e \<Rightarrow> Inl e
                                     | Inr ors \<Rightarrow>
                                         (let allOrders = (case data ors of None \<Rightarrow> [] | Some l \<Rightarrow> l);
                                              session = buildSession ev carRows allStyles allOrders
                                          in Inr (Some session, cacheSession env session st))))))))"

definition loadEventFromSupabase ::
    "supabase option \<Rightarrow> browser_env \<Rightarrow> app_state \<Rightarrow> js_error + EventSession option \<times> app_state" where
  "loadEventFromSupabase sb env st =
     (case sb of
        None \<Rightarrow> Inr (None, st)
      | Some client \<Rightarrow>
          if \<not> truthy (userId st) then Inr (None, st)
          else (case loadBody client (orEmpty (userId st)) env st of
                  Inl err \<Rightarrow> Inr (None, st)
                | Inr r \<Rightarrow> Inr r))"

section \<open>services/api.ts: generateAllStyles\<close>

text \<open>
  \<open>generateArt\<close> is the remote call. For the request at position \<open>k\<close> of \<open>styleConfigs\<close>
  the environment fixes how long the call takes (\<open>latency\<close>), what it settles with
  (\<open>outcome\<close>: \<open>Inr imageUrl\<close>, or \<open>Inl message\<close> when it rejects with an error of that
  message), and by how much the 500 ms stagger timer of the request fires late
  (\<open>timerLag\<close>). Time is a count of milliseconds.
\<close>

record remote_env =
  latency :: "nat \<Rightarrow> nat"
  outcome :: "nat \<Rightarrow> string + string"
  timerLag :: "nat \<Rightarrow> nat"

text \<open>What the orchestrator does, as seen from outside: a call of \<open>generateArt\<close>, of
  \<open>onStyleComplete\<close>, of \<open>onStyleError\<close>. Each event carries the list position of its request.\<close>

datatype gen_event =
    GenerateArtCalled nat CarIdentity StyleConfig "string option"
  | StyleComplete nat SnapMerchStyle string
  | StyleError nat SnapMerchStyle string

fun isCall :: "gen_event \<Rightarrow> bool" where
  "isCall (GenerateArtCalled _ _ _ _) = True"
| "isCall _ = False"

fun isComplete :: "gen_event \<Rightarrow> bool" where
  "isComplete (StyleComplete _ _ _) = True"
| "isComplete _ = False"

fun isError :: "gen_event \<Rightarrow> bool" where
  "isError (StyleError _ _ _) = True"
| "isError _ = False"

text \<open>\<open>clock\<close> is the time at which the loop of \<open>generateAllStyles\<close> stands, \<open>results\<close>
  the map it returns, \<open>trace\<close> the timed events so far, oldest first.\<close>

record gen_state =
  clock :: nat
  results :: "SnapMerchStyle \<rightharpoonup> string"
  trace :: "(nat \<times> gen_event) list"

definition MAX_CONCURRENT :: nat where
  "MAX_CONCURRENT = 2"

text \<open>The settling of one request: the \<open>try\<close> and \<open>catch\<close> branches of the callback.\<close>

definition settleEvent :: "remote_env \<Rightarrow> nat \<Rightarrow> StyleConfig \<Rightarrow> gen_event" where
  "settleEvent env k config =
     (case outcome env k of
        Inr imageUrl \<Rightarrow> StyleComplete k (cfg_id config) imageUrl
      | Inl message \<Rightarrow> StyleError k (cfg_id config) message)"

text \<open>The callback of \<open>batch.map\<close> for the request at \<open>batchIndex\<close> of the window that
  starts at list position \<open>i\<close> and at time \<open>t0\<close>.\<close>

definition requestTimeline ::
    "remote_env \<Rightarrow> CarIdentity \<Rightarrow> string option \<Rightarrow> nat \<Rightarrow> nat \<Rightarrow> nat \<times> StyleConfig
     \<Rightarrow> (nat \<times> gen_event) list" where
  "requestTimeline env identity referenceImage t0 i bc =
     (let batchIndex = fst bc; config = snd bc; k = i + batchIndex;
          issued = (if batchIndex > 0 then t0 + 500 + timerLag env k else t0);
          settled = issued + latency env k
      in [(issued, GenerateArtCalled k identity config referenceImage),
          (settled, settleEvent env k config)])"

text \<open>The events of one window in the order of their times; events of the same instant
  stay in request order.\<close>

definition windowTimeline ::
    "remote_env \<Rightarrow> CarIdentity \<Rightarrow> string option \<Rightarrow> nat \<Rightarrow> nat \<Rightarrow> StyleConfig list
     \<Rightarrow> (nat \<times> gen_event) list" where
  "windowTimeline env identity referenceImage t0 i batch =
     sort_key fst
       (concat (map (requestTimeline env identity referenceImage t0 i) (enumerate 0 batch)))"

text \<open>What an event does to the map: \<open>results.set(config.id, imageUrl)\<close> goes with
  \<open>onStyleComplete\<close>; nothing is stored otherwise.\<close>

fun storeResult :: "(SnapMerchStyle \<rightharpoonup> string) \<Rightarrow> gen_event \<Rightarrow> (SnapMerchStyle \<rightharpoonup> string)" where
  "storeResult m (StyleComplete k sid imageUrl) = m(sid \<mapsto> imageUrl)"
| "storeResult m (StyleError k sid message) = m"
| "storeResult m (GenerateArtCalled k identity config referenceImage) = m"

definition applyEvent :: "gen_state \<Rightarrow> nat \<times> gen_event \<Rightarrow> gen_state" where
  "applyEvent st te = st\<lparr>results := storeResult (results st) (snd te), trace := trace st @ [te]\<rparr>"

text \<open>One pass of the loop body: the window is run, and \<open>Promise.allSettled\<close> lets the
  loop go on when the last of its requests has settled.\<close>

definition runWindow ::
    "remote_env \<Rightarrow> CarIdentity \<Rightarrow> string option \<Rightarrow> StyleConfig list \<Rightarrow> nat \<Rightarrow> gen_state
     \<Rightarrow> gen_state" where
  "runWindow env identity referenceImage styleConfigs i st =
     (let batch = take MAX_CONCURRENT (drop i styleConfigs);
          events = windowTimeline env identity referenceImage (clock st) i batch;
          st1 = foldl applyEvent st events
      in st1\<lparr>clock := fold max (map fst events) (clock st)\<rparr>)"

function generateLoop ::
    "remote_env \<Rightarrow> CarIdentity \<Rightarrow> string option \<Rightarrow> StyleConfig list \<Rightarrow> nat \<Rightarrow> gen_state
     \<Rightarrow> gen_state" where
  "generateLoop env identity referenceImage styleConfigs i st =
     (if i < length styleConfigs
      then generateLoop env identity referenceImage styleConfigs (i + MAX_CONCURRENT)
             (runWindow env identity referenceImage styleConfigs i st)
      else st)"
  by pat_completeness auto
termination
  by (relation "measure (\<lambda>(env, identity, referenceImage, styleConfigs, i, st).
        length styleConfigs - i)") (auto simp: MAX_CONCURRENT_def)

declare generateLoop.simps [simp del]

text \<open>\<open>generateAllStyles\<close>, called at time \<open>t0\<close>.\<close>

definition generateAllStyles ::
    "remote_env \<Rightarrow> CarIdentity \<Rightarrow> StyleConfig list \<Rightarrow> string option \<Rightarrow> nat \<Rightarrow> gen_state" where
  "generateAllStyles env identity styleConfigs referenceImage t0 =
     generateLoop env identity referenceImage styleConfigs 0
       \<lparr>clock = t0, results = Map.empty, trace = []\<rparr>"

text \<open>The schedule in the words of the specification: the first window starts at once;
  the first request of a window is issued when the window starts and the second one after
  the stagger delay; the next window starts when both requests of the window have
  settled.\<close>

fun windowStart :: "remote_env \<Rightarrow> nat \<Rightarrow> nat \<Rightarrow> nat" where
  "windowStart env t0 0 = t0"
| "windowStart env t0 (Suc w) =
     max (windowStart env t0 w + latency env (2 * w))
         (windowStart env t0 w + 500 + timerLag env (2 * w + 1) + latency env (2 * w + 1))"

definition issuedAt :: "remote_env \<Rightarrow> nat \<Rightarrow> nat \<Rightarrow> nat" where
  "issuedAt env t0 k =
     windowStart env t0 (k div 2) + (if even k then 0 else 500 + timerLag env k)"

definition settledAt :: "remote_env \<Rightarrow> nat \<Rightarrow> nat \<Rightarrow> nat" where
  "settledAt env t0 k = issuedAt env t0 k + latency env k"

text \<open>The two events of the request at position \<open>k\<close> under that schedule: its call of
  \<open>generateArt\<close> and its settling.\<close>

definition requestEvents ::
    "remote_env \<Rightarrow> CarIdentity \<Rightarrow> string option \<Rightarrow> StyleConfig list \<Rightarrow> nat \<Rightarrow> nat
     \<Rightarrow> (nat \<times> gen_event) list" where
  "requestEvents env identity referenceImage styleConfigs t0 k =
     [(issuedAt env t0 k, GenerateArtCalled k identity (styleConfigs ! k) referenceImage),
      (settledAt env t0 k, settleEvent env k (styleConfigs ! k))]"

text \<open>The calls of \<open>generateArt\<close>, of \<open>onStyleComplete\<close> and of \<open>onStyleError\<close> in a
  trace, in the order of the trace.\<close>

definition callsOf :: "(nat \<times> gen_event) list \<Rightarrow> gen_event list" where
  "callsOf tr = filter isCall (map snd tr)"

definition completesOf :: "(nat \<times> gen_event) list \<Rightarrow> gen_event list" where
  "completesOf tr = filter isComplete (map snd tr)"

definition errorsOf :: "(nat \<times> gen_event) list \<Rightarrow> gen_event list" where
  "errorsOf tr = filter isError (map snd tr)"

section \<open>Concrete inputs\<close>

text \<open>The placeholder identity that the vendor view falls back to when the analysis
  fails, and a 2021 Toyota Supra.\<close>

definition placeholderIdentity :: CarIdentity where
  "placeholderIdentity =
     \<lparr>ci_year = Some ''?'', ci_make = Some ''Unknown'', ci_model = Some ''Vehicle'',
      ci_trim = [], ci_color = \<lparr>color_name = ''Unknown'', color_hex = ''#666666''\<rparr>\<rparr>"

definition supraIdentity :: CarIdentity where
  "supraIdentity =
     \<lparr>ci_year = Some ''2021'', ci_make = Some ''Toyota'', ci_model = Some ''Supra'',
      ci_trim = ''GR'', ci_color = \<lparr>color_name = ''Red'', color_hex = ''#FF0000''\<rparr>\<rparr>"

definition demoStyleConfigs :: "StyleConfig list" where
  "demoStyleConfigs =
     [mkStyle Japanese ''JDM Style'' [0x1F5FE] ''JDM Japanese'' ''#000000'',
      mkStyle Neon ''Neon Glow'' [0x1F4A1] ''Neon Sign'' ''#000000'',
      mkStyle Comic ''Comic Book'' [0x1F4A5] ''Comic Book'' ''#FFFFFF'',
      mkStyle Neon80s ''80s Synthwave'' [0x1F306] ''Synthwave 80s'' ''#1a0033'']"

text \<open>A remote side whose second call (position 1) fails quickly while the first call is
  still running.\<close>

definition demoRemote :: remote_env where
  "demoRemote =
     \<lparr>latency = (\<lambda>k. if k = 0 then 3000 else if k = 1 then 100 else 2000),
      outcome = (\<lambda>k. if k = 1 then Inl ''Request failed: 500'' else Inr ''https://cdn.example/art.jpg''),
      timerLag = (\<lambda>k. 4)\<rparr>"

definition demoEnv :: browser_env where
  "demoEnv = \<lparr>quota = (\<lambda>t. True), today = ''2026-01-02'', now = 1767312000000,
              newId = ''mjx0k2abcdef''\<rparr>"

text \<open>A browser whose storage accepts a session of at most 3 cars.\<close>

definition tightEnv :: browser_env where
  "tightEnv = demoEnv\<lparr>quota :=
     (\<lambda>t. case t of SessionJson v \<Rightarrow> length (cars v) \<le> 3 | EmptyText \<Rightarrow> True | Unparsable \<Rightarrow> True)\<rparr>"

definition emptyState :: app_state where
  "emptyState = \<lparr>storage = Map.empty, userId = None, setItemCalls = [], syncCalls = []\<rparr>"

definition demoCar :: "string \<Rightarrow> CarSession" where
  "demoCar i =
     \<lparr>car_id = i, photoBase64 = ''data:image/jpeg;base64,/9j/4AAQ'',
      photoThumbnail = Some ''data:image/jpeg;base64,/9j/2wBD'',
      car_identity = None,
      styles = [\<lparr>gs_styleId = Neon, gs_imageUrl = Some ''https://cdn.example/neon.jpg'',
                 gs_status = StDone, gs_error = None\<rparr>],
      mockups = [], orders = [], car_createdAt = 1767312000000, shareUrl = None\<rparr>"

definition demoSession :: EventSession where
  "demoSession =
     \<lparr>ev_id = ''ev-1'', ev_name = ''Cars & Coffee'', ev_date = ''2026-01-02'',
      cars = [demoCar ''car-4'', demoCar ''car-3'', demoCar ''car-2'', demoCar ''car-1''],
      ev_createdAt = 1767312000000\<rparr>"

text \<open>A session of the day before, and the states in which it, today's session, or a
  text that does not parse is stored.\<close>

definition staleSession :: EventSession where
  "staleSession = demoSession\<lparr>ev_id := ''ev-0'', ev_date := ''2026-01-01''\<rparr>"

definition staleState :: app_state where
  "staleState = emptyState\<lparr>storage := [EVENT_SESSION \<mapsto> JSON_stringify staleSession]\<rparr>"

definition todayState :: app_state where
  "todayState = emptyState\<lparr>storage := [EVENT_SESSION \<mapsto> JSON_stringify demoSession]\<rparr>"

definition corruptState :: app_state where
  "corruptState = emptyState\<lparr>storage := [EVENT_SESSION \<mapsto> Unparsable]\<rparr>"

definition noUpdate :: CarSessionUpdate where
  "noUpdate =
     \<lparr>u_id = None, u_photoBase64 = None, u_photoThumbnail = None, u_identity = None,
      u_styles = None, u_mockups = None, u_orders = None, u_createdAt = None,
      u_shareUrl = None\<rparr>"

text \<open>The update \<open>{ photoBase64: '' }\<close> of the vendor view.\<close>

definition photoUpdate :: CarSessionUpdate where
  "photoUpdate = noUpdate\<lparr>u_photoBase64 := Some []\<rparr>"

text \<open>A Supabase client with one event and one car, whose read of the styles returns an
  error object, and a signed-in state.\<close>

definition demoEventRow :: event_row where
  "demoEventRow = \<lparr>er_id = ''ev-1'', er_name = ''Cars & Coffee'', er_date = ''2026-01-02'',
                   er_created_at = 1767312000000\<rparr>"

definition demoCarRow :: car_row where
  "demoCarRow = \<lparr>cr_id = ''car-1'', cr_photo_thumbnail = None, cr_identity = None,
                 cr_share_url = None, cr_created_at = 1767312000000\<rparr>"

definition stylesFailClient :: supabase where
  "stylesFailClient =
     \<lparr>selectEvents = (\<lambda>uid date. Inr \<lparr>data = Some [demoEventRow], error = None\<rparr>),
      selectCars = (\<lambda>eventId. Inr \<lparr>data = Some [demoCarRow], error = None\<rparr>),
      selectStyles = (\<lambda>carIds. Inr \<lparr>data = None, error = Some ''permission denied''\<rparr>),
      selectOrders = (\<lambda>carIds. Inr \<lparr>data = Some [], error = None\<rparr>)\<rparr>"

text \<open>The same client with the error object on the read of the cars, and on the read
  of the orders.\<close>

definition carsFailClient :: supabase where
  "carsFailClient =
     stylesFailClient\<lparr>selectCars :=
       (\<lambda>eventId. Inr \<lparr>data = None, error = Some ''permission denied''\<rparr>)\<rparr>"

definition ordersFailClient :: supabase where
  "ordersFailClient =
     stylesFailClient\<lparr>selectStyles := (\<lambda>carIds. Inr \<lparr>data = Some [], error = None\<rparr>),
       selectOrders := (\<lambda>carIds. Inr \<lparr>data = None, error = Some ''permission denied''\<rparr>)\<rparr>"

text \<open>A signed-in state whose local copy is today's session, with the styles of its
  cars.\<close>

definition signedInState :: app_state where
  "signedInState = todayState\<lparr>userId := Some ''user_2abc''\<rparr>"

text \<open>The session built from the event row and the car row alone.\<close>

definition partialSession :: EventSession where
  "partialSession =
     \<lparr>ev_id = ''ev-1'', ev_name = ''Cars & Coffee'', ev_date = ''2026-01-02'',
      cars = [\<lparr>car_id = ''car-1'', photoBase64 = [], photoThumbnail = Some [],
               car_identity = None, styles = [], mockups = [], orders = [],
               car_createdAt = 1767312000000, shareUrl = None\<rparr>],
      ev_createdAt = 1767312000000\<rparr>"

section \<open>Properties named in the statements\<close>

text \<open>The session literal that \<open>createNewEventSession\<close> builds.\<close>

definition freshSession :: "browser_env \<Rightarrow> EventSession" where
  "freshSession env = \<lparr>ev_id = newId env, ev_name = ''Cars & Coffee'', ev_date = today env,
                        cars = [], ev_createdAt = now env\<rparr>"

text \<open>How a persisted style, mockup and car relate to the ones given to
  \<open>saveEventSession\<close>: the image of a style or mockup is blank when the given one is a large
  data URL and is the given one (or blank, for \<open>null\<close>) otherwise; the photo of a car is
  blank; its thumbnail is blank, or the given one when that is shorter than 15000; nothing
  else differs.\<close>

definition persistedStyle :: "GeneratedStyle \<Rightarrow> GeneratedStyle \<Rightarrow> bool" where
  "persistedStyle s' s =
     (gs_imageUrl s' = Some (if isLargeDataUrl (gs_imageUrl s) then [] else orEmpty (gs_imageUrl s))
      \<and> \<not> isLargeDataUrl (gs_imageUrl s')
      \<and> gs_styleId s' = gs_styleId s \<and> gs_status s' = gs_status s \<and> gs_error s' = gs_error s)"

definition persistedMockup :: "MockupResult \<Rightarrow> MockupResult \<Rightarrow> bool" where
  "persistedMockup m' m =
     (mr_imageUrl m' = Some (if isLargeDataUrl (mr_imageUrl m) then [] else orEmpty (mr_imageUrl m))
      \<and> \<not> isLargeDataUrl (mr_imageUrl m')
      \<and> mr_productId m' = mr_productId m \<and> mr_styleId m' = mr_styleId m
      \<and> mr_status m' = mr_status m)"

definition persistedCar :: "CarSession \<Rightarrow> CarSession \<Rightarrow> bool" where
  "persistedCar c orig =
     (photoBase64 c = []
      \<and> (photoThumbnail c = Some []
         \<or> (photoThumbnail c = photoThumbnail orig
            \<and> length (orEmpty (photoThumbnail orig)) < 15000))
      \<and> list_all2 persistedStyle (styles c) (styles orig)
      \<and> list_all2 persistedMockup (mockups c) (mockups orig)
      \<and> car_id c = car_id orig \<and> car_identity c = car_identity orig
      \<and> orders c = orders orig \<and> car_createdAt c = car_createdAt orig
      \<and> shareUrl c = shareUrl orig)"

section \<open>The ranker returns a permutation of the catalog\<close>

lemma length_STYLE_CONFIGS: "length STYLE_CONFIGS = 12"
  by (simp add: STYLE_CONFIGS_def)

lemma orderedStyles_ids: "map cfg_id (orderedStyles c) = PRIORITY_MAP c"
  by (cases c) (simp_all add: orderedStyles_def configMap_def STYLE_CONFIGS_def mkStyle_def)

lemma mset_orderedStyles: "mset (orderedStyles c) = mset STYLE_CONFIGS"
  by (cases c) (simp_all add: orderedStyles_def configMap_def STYLE_CONFIGS_def mkStyle_def)

lemma distinct_PRIORITY_MAP: "distinct (PRIORITY_MAP c)"
  by (cases c) simp_all

lemma UNIV_SnapMerchStyle:
  "(UNIV :: SnapMerchStyle set) =
     {Vector, Retro, Calligram, Neon, Watercolor, Comic, Blueprint, PopArt, Pencil, Neon80s,
      LowriderArt, Japanese}"
proof -
  have "s \<in> {Vector, Retro, Calligram, Neon, Watercolor, Comic, Blueprint, PopArt, Pencil,
      Neon80s, LowriderArt, Japanese}" for s
    by (cases s) simp_all
  then show ?thesis by blast
qed

lemma set_PRIORITY_MAP: "set (PRIORITY_MAP c) = UNIV"
  unfolding UNIV_SnapMerchStyle by (cases c) auto

lemma catalog_ids:
  "map cfg_id STYLE_CONFIGS =
     [Vector, Retro, Calligram, Neon, Watercolor, Comic, Blueprint, PopArt, Pencil, Neon80s,
      LowriderArt, Japanese]"
  by (simp add: STYLE_CONFIGS_def mkStyle_def)

text \<open>
  C1. For every identity, \<open>getPrioritizedStyles\<close> returns a permutation of the catalog of
  12 styles: the same length, the same entries as a multiset, every style id exactly once.
  The same holds of the ranking of each of the 7 categories.
\<close>

theorem getPrioritizedStyles_permutation:
  "length STYLE_CONFIGS = 12
   \<and> length (getPrioritizedStyles identity) = length STYLE_CONFIGS
   \<and> mset (getPrioritizedStyles identity) = mset STYLE_CONFIGS
   \<and> distinct (map cfg_id (getPrioritizedStyles identity))
   \<and> set (map cfg_id (getPrioritizedStyles identity)) = set (map cfg_id STYLE_CONFIGS)
   \<and> length (orderedStyles category) = length STYLE_CONFIGS
   \<and> mset (orderedStyles category) = mset STYLE_CONFIGS
   \<and> distinct (map cfg_id (orderedStyles category))
   \<and> set (map cfg_id (orderedStyles category)) = set (map cfg_id STYLE_CONFIGS)"
proof -
  have len: "length (orderedStyles c) = length STYLE_CONFIGS" for c
    using mset_orderedStyles [of c] by (metis size_mset)
  have ids: "set (map cfg_id STYLE_CONFIGS) = UNIV"
    unfolding catalog_ids UNIV_SnapMerchStyle by simp
  show ?thesis
    unfolding getPrioritizedStyles_def
    by (simp only: length_STYLE_CONFIGS len mset_orderedStyles orderedStyles_ids
        distinct_PRIORITY_MAP set_PRIORITY_MAP ids simp_thms)
qed

theorem getPrioritizedStyles_permutation_witness:
  "length (getPrioritizedStyles supraIdentity) = 12
   \<and> mset (getPrioritizedStyles supraIdentity) = mset STYLE_CONFIGS
   \<and> distinct (map cfg_id (getPrioritizedStyles supraIdentity))"
  using getPrioritizedStyles_permutation [of supraIdentity Jdm] by simp

section \<open>The classifier\<close>

lemma parseInt10_empty: "parseInt10 [] = None"
  by (simp add: parseInt10_def)

lemma parseInt10_undefined: "parseInt10 ''undefined'' = None"
  by (simp add: parseInt10_def isWhiteSpace_def isDigit_def)

lemma parseInt10_zero: "parseInt10 ''0'' = Some 0"
  by (simp add: parseInt10_def isWhiteSpace_def isDigit_def digitsValue_def)

lemma trim_lower_empty: "trim (toLowerCase []) = []"
  by (simp add: trim_def toLowerCase_def)

text \<open>The no-break space is skipped by \<open>parseInt\<close> and trimmed by \<open>trim\<close>.\<close>

lemma parseInt10_skips_nbsp: "parseInt10 (CHR 0xA0 # ''1970'') = Some 1970"
  by code_simp

lemma trim_strips_nbsp: "trim (toLowerCase (''Toyota'' @ [CHR 0xA0])) = ''toyota''"
  by code_simp

lemma nbsp_year_is_read:
  "categorizeVehicle
     (placeholderIdentity\<lparr>ci_year := Some (CHR 0xA0 # ''1970''), ci_make := Some ''Chevrolet'',
        ci_model := Some ''Impala''\<rparr>) = Lowrider"
  by code_simp

lemma nbsp_make_is_trimmed:
  "categorizeVehicle (placeholderIdentity\<lparr>ci_make := Some (''Toyota'' @ [CHR 0xA0])\<rparr>) = Jdm"
  by code_simp

lemma blank_is_default:
  assumes "yearOf identity = 0" "makeOf identity = []" "modelOf identity = []"
  shows "categorizeVehicle identity = Default"
proof -
  have f: "fullNameOf identity = '' ''" using assms by (simp add: fullNameOf_def)
  have l: "\<not> lowriderRule identity" using assms by (simp add: lowriderRule_def)
  have j: "\<not> jdmRule identity" using assms by (simp add: jdmRule_def JDM_MAKES_def)
  have t: "\<not> truckRule identity" unfolding truckRule_def f by (simp add: TRUCK_KEYWORDS_def)
  have m: "\<not> modernSportsRule identity" using assms by (simp add: modernSportsRule_def)
  show ?thesis using l j t m assms by (simp add: categorizeVehicle_def)
qed

lemma categorizeVehicle_cong:
  "yearOf a = yearOf b \<Longrightarrow> makeOf a = makeOf b \<Longrightarrow> modelOf a = modelOf b \<Longrightarrow>
   categorizeVehicle a = categorizeVehicle b"
  by (simp only: categorizeVehicle_def lowriderRule_def jdmRule_def truckRule_def
      modernSportsRule_def fullNameOf_def)

text \<open>
  C7. The classifier has no failing path: for every identity it returns one of the 7
  categories. A year on which \<open>parseInt\<close> gives NaN, and an absent year, classify as the
  year 0 does; an absent make or model classifies as the empty string does; and the
  identity with year, make and model all empty classifies as \<open>default\<close>.
\<close>

theorem categorizeVehicle_total:
  "categorizeVehicle identity
     \<in> {Pre1980Classic, Eighties90s, Truck, Jdm, Lowrider, ModernSports, Default}
   \<and> (parseInt10 y = None \<longrightarrow>
        categorizeVehicle (identity\<lparr>ci_year := Some y\<rparr>)
          = categorizeVehicle (identity\<lparr>ci_year := Some ''0''\<rparr>))
   \<and> categorizeVehicle (identity\<lparr>ci_year := None\<rparr>)
        = categorizeVehicle (identity\<lparr>ci_year := Some ''0''\<rparr>)
   \<and> categorizeVehicle (identity\<lparr>ci_make := None\<rparr>)
        = categorizeVehicle (identity\<lparr>ci_make := Some []\<rparr>)
   \<and> categorizeVehicle (identity\<lparr>ci_model := None\<rparr>)
        = categorizeVehicle (identity\<lparr>ci_model := Some []\<rparr>)
   \<and> categorizeVehicle (identity\<lparr>ci_year := Some [], ci_make := Some [], ci_model := Some []\<rparr>)
        = Default"
proof -
  have c1: "categorizeVehicle identity
     \<in> {Pre1980Classic, Eighties90s, Truck, Jdm, Lowrider, ModernSports, Default}"
    by (cases "categorizeVehicle identity") simp_all
  have c2: "parseInt10 y = None \<longrightarrow>
        categorizeVehicle (identity\<lparr>ci_year := Some y\<rparr>)
          = categorizeVehicle (identity\<lparr>ci_year := Some ''0''\<rparr>)"
    by (auto intro!: categorizeVehicle_cong
        simp: yearOf_def parseInt10_zero makeOf_def modelOf_def)
  have c3: "categorizeVehicle (identity\<lparr>ci_year := None\<rparr>)
        = categorizeVehicle (identity\<lparr>ci_year := Some ''0''\<rparr>)"
    by (rule categorizeVehicle_cong)
       (simp_all add: yearOf_def parseInt10_zero parseInt10_undefined makeOf_def modelOf_def)
  have c4: "categorizeVehicle (identity\<lparr>ci_make := None\<rparr>)
        = categorizeVehicle (identity\<lparr>ci_make := Some []\<rparr>)"
    by (rule categorizeVehicle_cong) (simp_all add: yearOf_def makeOf_def modelOf_def)
  have c5: "categorizeVehicle (identity\<lparr>ci_model := None\<rparr>)
        = categorizeVehicle (identity\<lparr>ci_model := Some []\<rparr>)"
    by (rule categorizeVehicle_cong) (simp_all add: yearOf_def makeOf_def modelOf_def)
  have c6: "categorizeVehicle
        (identity\<lparr>ci_year := Some [], ci_make := Some [], ci_model := Some []\<rparr>) = Default"
    by (rule blank_is_default)
       (simp_all add: yearOf_def parseInt10_empty makeOf_def modelOf_def trim_lower_empty)
  from c1 c2 c3 c4 c5 c6 show ?thesis by blast
qed

theorem categorizeVehicle_total_witness:
  "parseInt10 ''?'' = None
   \<and> categorizeVehicle (placeholderIdentity\<lparr>ci_year := Some ''?''\<rparr>)
        = categorizeVehicle (placeholderIdentity\<lparr>ci_year := Some ''0''\<rparr>)
   \<and> categorizeVehicle
        (placeholderIdentity\<lparr>ci_year := Some [], ci_make := Some [], ci_model := Some []\<rparr>)
        = Default"
proof -
  have h: "parseInt10 ''?'' = None"
    by (simp add: parseInt10_def isWhiteSpace_def isDigit_def)
  show ?thesis
    using h categorizeVehicle_total [of placeholderIdentity "''?''"] by simp
qed

lemma lower_Toyota: "trim (toLowerCase ''Toyota'') = ''toyota''"
  by code_simp

lemma lower_Supra: "trim (toLowerCase ''Supra'') = ''supra''"
  by code_simp

lemma parseInt10_2021: "parseInt10 ''2021'' = Some 2021"
  by code_simp

lemma jdm_not_lowrider: "jdmRule identity \<Longrightarrow> \<not> lowriderRule identity"
  by (auto simp add: jdmRule_def lowriderRule_def JDM_MAKES_def LOWRIDER_MAKES_def)

lemma jdmRule_first: "jdmRule identity \<Longrightarrow> categorizeVehicle identity = Jdm"
  using jdm_not_lowrider [of identity] by (simp add: categorizeVehicle_def)

text \<open>
  C8. An identity with year 2021, make Toyota and model Supra meets the JDM make rule and
  the modern-sports conditions (year at least 2010, model in the sports list); it
  classifies as \<open>jdm\<close>, because the JDM rule is tested first.
\<close>

theorem toyota_supra_2021_is_jdm:
  assumes "ci_year identity = Some ''2021''" and "ci_make identity = Some ''Toyota''"
    and "ci_model identity = Some ''Supra''"
  shows "jdmRule identity \<and> modernSportsRule identity \<and> categorizeVehicle identity = Jdm"
proof -
  have mk: "makeOf identity = ''toyota''" using assms by (simp add: makeOf_def lower_Toyota)
  have md: "modelOf identity = ''supra''" using assms by (simp add: modelOf_def lower_Supra)
  have yr: "yearOf identity = 2021" using assms by (simp add: yearOf_def parseInt10_2021)
  have j: "jdmRule identity" by (simp add: jdmRule_def mk JDM_MAKES_def)
  have s: "modernSportsRule identity"
    by (simp add: modernSportsRule_def yr md SPORTS_MODELS_def)
  from j s jdmRule_first [OF j] show ?thesis by simp
qed

theorem toyota_supra_2021_is_jdm_witness:
  "jdmRule supraIdentity \<and> modernSportsRule supraIdentity
   \<and> categorizeVehicle supraIdentity = Jdm"
  using toyota_supra_2021_is_jdm [of supraIdentity] by (simp add: supraIdentity_def)

section \<open>Saving the session\<close>

lemma writeSession_cases:
  "writeSession env session st =
     Inr (if quota env (JSON_stringify (stripped session))
          then st\<lparr>storage := (storage st)(EVENT_SESSION \<mapsto> JSON_stringify (stripped session)),
                  setItemCalls := setItemCalls st @ [JSON_stringify (stripped session)]\<rparr>
          else if quota env (JSON_stringify (trimmed session))
          then st\<lparr>storage := (storage st)(EVENT_SESSION \<mapsto> JSON_stringify (trimmed session)),
                  setItemCalls := setItemCalls st
                    @ [JSON_stringify (stripped session), JSON_stringify (trimmed session)]\<rparr>
          else st\<lparr>storage := (storage st)(EVENT_SESSION := None),
                  setItemCalls := setItemCalls st
                    @ [JSON_stringify (stripped session), JSON_stringify (trimmed session)]\<rparr>)"
  by (simp add: writeSession_def setItem_def logSetItem_def removeItem_def Let_def)

lemma saveEventSession_Inr:
  "saveEventSession env session st =
     Inr (let st1 = projr (writeSession env session st)
          in if truthy (userId st) then st1\<lparr>syncCalls := syncCalls st @ [session]\<rparr> else st1)"
  by (simp add: saveEventSession_def writeSession_cases Let_def)

lemma cars_trimmed:
  "cars (trimmed session) = map (\<lambda>c. (stripCar c)\<lparr>photoThumbnail := Some []\<rparr>) (take 3 (cars session))"
  by (simp add: trimmed_def stripped_def take_map)

text \<open>
  C4. \<open>saveEventSession\<close> never throws. When the first \<open>setItem\<close> throws, it calls
  \<open>setItem\<close> once more, with the first 3 cars of the list (the list is kept newest first)
  and every thumbnail blank, nothing else changed in what was to be written; when that
  call throws too, the entry of the session is removed.
\<close>

theorem saveEventSession_degrades:
  "(\<exists>st'. saveEventSession env session st = Inr st')
   \<and> (quota env (JSON_stringify (stripped session)) \<longrightarrow>
        (\<exists>st'. saveEventSession env session st = Inr st'
           \<and> setItemCalls st' = setItemCalls st @ [JSON_stringify (stripped session)]
           \<and> storage st' = (storage st)(EVENT_SESSION \<mapsto> JSON_stringify (stripped session))))
   \<and> (\<not> quota env (JSON_stringify (stripped session)) \<longrightarrow>
        (\<exists>st' retry. saveEventSession env session st = Inr st'
           \<and> setItemCalls st' = setItemCalls st @ [JSON_stringify (stripped session), JSON_stringify retry]
           \<and> length (cars retry) = min 3 (length (cars session))
           \<and> map car_id (cars retry) = take 3 (map car_id (cars session))
           \<and> (\<forall>c \<in> set (cars retry). photoThumbnail c = Some [])
           \<and> (\<forall>i < length (cars retry).
                 cars retry ! i = (stripCar (cars session ! i))\<lparr>photoThumbnail := Some []\<rparr>)
           \<and> retry\<lparr>cars := []\<rparr> = session\<lparr>cars := []\<rparr>
           \<and> storage st' = (storage st)(EVENT_SESSION :=
                 (if quota env (JSON_stringify retry) then Some (JSON_stringify retry) else None))))"
proof -
  have a: "\<exists>st'. saveEventSession env session st = Inr st'"
    by (simp add: saveEventSession_Inr)
  have b: "quota env (JSON_stringify (stripped session)) \<longrightarrow>
        (\<exists>st'. saveEventSession env session st = Inr st'
           \<and> setItemCalls st' = setItemCalls st @ [JSON_stringify (stripped session)]
           \<and> storage st' = (storage st)(EVENT_SESSION \<mapsto> JSON_stringify (stripped session)))"
    by (simp add: saveEventSession_Inr writeSession_cases Let_def)
  have c: "\<exists>st'. saveEventSession env session st = Inr st'
           \<and> setItemCalls st' = setItemCalls st @ [JSON_stringify (stripped session), JSON_stringify (trimmed session)]
           \<and> length (cars (trimmed session)) = min 3 (length (cars session))
           \<and> map car_id (cars (trimmed session)) = take 3 (map car_id (cars session))
           \<and> (\<forall>c \<in> set (cars (trimmed session)). photoThumbnail c = Some [])
           \<and> (\<forall>i < length (cars (trimmed session)).
                 cars (trimmed session) ! i = (stripCar (cars session ! i))\<lparr>photoThumbnail := Some []\<rparr>)
           \<and> (trimmed session)\<lparr>cars := []\<rparr> = session\<lparr>cars := []\<rparr>
           \<and> storage st' = (storage st)(EVENT_SESSION :=
                 (if quota env (JSON_stringify (trimmed session)) then Some (JSON_stringify (trimmed session)) else None))"
    if "\<not> quota env (JSON_stringify (stripped session))"
  proof -
    have l: "length (cars (trimmed session)) = min 3 (length (cars session))"
      by (simp add: cars_trimmed min.commute)
    have m: "map car_id (cars (trimmed session)) = take 3 (map car_id (cars session))"
      by (simp add: cars_trimmed take_map stripCar_def comp_def)
    have t: "\<forall>c \<in> set (cars (trimmed session)). photoThumbnail c = Some []"
      by (auto simp add: cars_trimmed)
    have n: "\<forall>i < length (cars (trimmed session)).
                 cars (trimmed session) ! i = (stripCar (cars session ! i))\<lparr>photoThumbnail := Some []\<rparr>"
      by (simp add: cars_trimmed)
    have r: "(trimmed session)\<lparr>cars := []\<rparr> = session\<lparr>cars := []\<rparr>"
      by (simp add: trimmed_def stripped_def)
    show ?thesis
      using that l m t n r
      by (simp add: saveEventSession_Inr writeSession_cases Let_def)
  qed
  from a b c show ?thesis by blast
qed

theorem saveEventSession_degrades_witness:
  "\<not> quota tightEnv (JSON_stringify (stripped demoSession))
   \<and> (\<exists>st' retry. saveEventSession tightEnv demoSession emptyState = Inr st'
         \<and> setItemCalls st' = [JSON_stringify (stripped demoSession), JSON_stringify retry]
         \<and> map car_id (cars retry) = [''car-4'', ''car-3'', ''car-2'']
         \<and> storage st' EVENT_SESSION = Some (JSON_stringify retry))
   \<and> quota demoEnv (JSON_stringify (stripped demoSession))
   \<and> (\<exists>st'. saveEventSession demoEnv demoSession emptyState = Inr st'
         \<and> setItemCalls st' = [JSON_stringify (stripped demoSession)])"
proof -
  have h: "\<not> quota tightEnv (JSON_stringify (stripped demoSession))"
    by (simp add: tightEnv_def JSON_stringify_def stripped_def demoSession_def)
  from h saveEventSession_degrades [of tightEnv demoSession emptyState]
  obtain st' retry where r: "saveEventSession tightEnv demoSession emptyState = Inr st'"
    "setItemCalls st' = setItemCalls emptyState @ [JSON_stringify (stripped demoSession), JSON_stringify retry]"
    "length (cars retry) = min 3 (length (cars demoSession))"
    "map car_id (cars retry) = take 3 (map car_id (cars demoSession))"
    "storage st' = (storage emptyState)(EVENT_SESSION :=
                 (if quota tightEnv (JSON_stringify retry) then Some (JSON_stringify retry) else None))"
    by blast
  have q: "quota tightEnv (JSON_stringify retry)"
    using r(3) by (simp add: tightEnv_def JSON_stringify_def)
  have "setItemCalls st' = [JSON_stringify (stripped demoSession), JSON_stringify retry]"
    using r(2) by (simp add: emptyState_def)
  moreover have "map car_id (cars retry) = [''car-4'', ''car-3'', ''car-2'']"
    using r(4) by (simp add: demoSession_def demoCar_def)
  moreover have "storage st' EVENT_SESSION = Some (JSON_stringify retry)"
    using r(5) q by simp
  ultimately have tight: "\<exists>st' retry. saveEventSession tightEnv demoSession emptyState = Inr st'
         \<and> setItemCalls st' = [JSON_stringify (stripped demoSession), JSON_stringify retry]
         \<and> map car_id (cars retry) = [''car-4'', ''car-3'', ''car-2'']
         \<and> storage st' EVENT_SESSION = Some (JSON_stringify retry)"
    using r(1) by auto
  have g: "quota demoEnv (JSON_stringify (stripped demoSession))"
    by (simp add: demoEnv_def)
  from g saveEventSession_degrades [of demoEnv demoSession emptyState]
  have roomy: "\<exists>st'. saveEventSession demoEnv demoSession emptyState = Inr st'
         \<and> setItemCalls st' = [JSON_stringify (stripped demoSession)]"
    by (auto simp add: emptyState_def)
  from h tight g roomy show ?thesis by simp
qed

lemma startsWith_prefix: "startsWith s m = prefix m s"
  by (induction s m rule: startsWith.induct) auto

lemma isLargeDataUrl_iff:
  "isLargeDataUrl u = (\<exists>s. u = Some s \<and> prefix ''data:'' s \<and> 500 < length s)"
  by (cases u) (auto simp add: isLargeDataUrl_def startsWith_prefix)

lemma not_large_empty: "\<not> isLargeDataUrl (Some [])"
  by (simp add: isLargeDataUrl_def)

lemma not_large_orEmpty: "\<not> isLargeDataUrl u \<Longrightarrow> \<not> isLargeDataUrl (Some (orEmpty u))"
  by (cases u) (simp_all add: isLargeDataUrl_def)

lemma persistedStyle_stripStyle: "persistedStyle (stripStyle s) s"
  by (simp add: persistedStyle_def stripStyle_def not_large_empty not_large_orEmpty)

lemma persistedMockup_stripMockup: "persistedMockup (stripMockup m) m"
  by (simp add: persistedMockup_def stripMockup_def not_large_empty not_large_orEmpty)

lemma persistedCar_stripCar: "persistedCar (stripCar car) car"
proof -
  have s: "list_all2 persistedStyle (map stripStyle (styles car)) (styles car)"
    by (simp add: list_all2_map1 list_all2_same persistedStyle_stripStyle)
  have m: "list_all2 persistedMockup (map stripMockup (mockups car)) (mockups car)"
    by (simp add: list_all2_map1 list_all2_same persistedMockup_stripMockup)
  show ?thesis
    using s m by (cases "photoThumbnail car") (auto simp add: persistedCar_def stripCar_def)
qed

lemma persistedCar_blank:
  "persistedCar c orig \<Longrightarrow> persistedCar (c\<lparr>photoThumbnail := Some []\<rparr>) orig"
  by (simp add: persistedCar_def)

lemma persisted_stripped: "list_all2 persistedCar (cars (stripped session)) (cars session)"
  by (simp add: stripped_def list_all2_map1 list_all2_same persistedCar_stripCar)

lemma persisted_trimmed:
  "list_all2 persistedCar (cars (trimmed session)) (take 3 (cars session))"
  by (simp add: cars_trimmed list_all2_map1 list_all2_same persistedCar_stripCar
      persistedCar_blank)

lemma thumbnail_stripCar:
  "photoThumbnail (stripCar car) =
     Some (if length (orEmpty (photoThumbnail car)) < 15000 then orEmpty (photoThumbnail car)
           else [])"
  by (cases "photoThumbnail car") (auto simp add: stripCar_def)

text \<open>
  C5. Every text that \<open>saveEventSession\<close> hands to \<open>setItem\<close>, and so whatever it leaves
  in the storage, is the JSON text of a session in which every car has an empty
  \<open>photoBase64\<close>, a thumbnail shorter than 15000 that is the given one or blank, and no
  style or mockup image that is a \<open>data:\<close> URL longer than 500; in the first text the
  thumbnail is the given one exactly when that is shorter than 15000, and each image is
  blank exactly when the given one is such a data URL.
\<close>

theorem saveEventSession_strips:
  assumes "saveEventSession env session st = Inr st'"
  shows "\<exists>first rest.
           setItemCalls st' = setItemCalls st @ map JSON_stringify (first # rest)
           \<and> list_all2 persistedCar (cars first) (cars session)
           \<and> list_all2 (\<lambda>c orig. photoThumbnail c =
                 Some (if length (orEmpty (photoThumbnail orig)) < 15000
                       then orEmpty (photoThumbnail orig) else [])) (cars first) (cars session)
           \<and> (\<forall>v \<in> set rest. list_all2 persistedCar (cars v) (take 3 (cars session)))
           \<and> (\<forall>v \<in> set (first # rest). \<forall>c \<in> set (cars v).
                 photoBase64 c = []
                 \<and> length (orEmpty (photoThumbnail c)) < 15000
                 \<and> (\<forall>s \<in> set (styles c). \<not> isLargeDataUrl (gs_imageUrl s))
                 \<and> (\<forall>m \<in> set (mockups c). \<not> isLargeDataUrl (mr_imageUrl m)))
           \<and> (storage st' EVENT_SESSION = None
               \<or> storage st' EVENT_SESSION \<in> Some ` JSON_stringify ` set (first # rest))
           \<and> isLargeDataUrl url = (\<exists>s. url = Some s \<and> prefix ''data:'' s \<and> 500 < length s)"
proof -
  note large = isLargeDataUrl_iff [of url]
  have thumbs: "list_all2 (\<lambda>c orig. photoThumbnail c =
                 Some (if length (orEmpty (photoThumbnail orig)) < 15000
                       then orEmpty (photoThumbnail orig) else []))
                 (cars (stripped session)) (cars session)"
    by (simp add: stripped_def list_all2_map1 list_all2_same thumbnail_stripCar)
  have clean: "photoBase64 c = [] \<and> length (orEmpty (photoThumbnail c)) < 15000
                 \<and> (\<forall>s \<in> set (styles c). \<not> isLargeDataUrl (gs_imageUrl s))
                 \<and> (\<forall>m \<in> set (mockups c). \<not> isLargeDataUrl (mr_imageUrl m))"
    if "list_all2 persistedCar cs origs" and "c \<in> set cs" for c cs origs
  proof -
    from that obtain orig where p: "persistedCar c orig"
      by (auto simp add: list_all2_conv_all_nth in_set_conv_nth)
    have s: "\<forall>s \<in> set (styles c). \<not> isLargeDataUrl (gs_imageUrl s)"
      using p
      by (auto simp add: persistedCar_def persistedStyle_def list_all2_conv_all_nth
          in_set_conv_nth)
    have m: "\<forall>m \<in> set (mockups c). \<not> isLargeDataUrl (mr_imageUrl m)"
      using p
      by (auto simp add: persistedCar_def persistedMockup_def list_all2_conv_all_nth
          in_set_conv_nth)
    from p s m show ?thesis by (auto simp add: persistedCar_def)
  qed
  have st': "st' = (let st1 = projr (writeSession env session st)
          in if truthy (userId st) then st1\<lparr>syncCalls := syncCalls st @ [session]\<rparr> else st1)"
    using assms by (simp add: saveEventSession_Inr)
  show ?thesis
  proof (cases "quota env (JSON_stringify (stripped session))")
    case True
    have "setItemCalls st' = setItemCalls st @ map JSON_stringify (stripped session # [])"
      and "storage st' EVENT_SESSION \<in> Some ` JSON_stringify ` set (stripped session # [])"
      using True by (simp_all add: st' writeSession_cases Let_def)
    with thumbs persisted_stripped [of session] clean [OF persisted_stripped [of session]]
      large
    show ?thesis
      by (intro exI [of _ "stripped session"] exI [of _ "[]"]) simp
  next
    case False
    have c: "setItemCalls st' = setItemCalls st @ map JSON_stringify (stripped session # [trimmed session])"
      and s: "storage st' EVENT_SESSION = None
         \<or> storage st' EVENT_SESSION \<in> Some ` JSON_stringify ` set (stripped session # [trimmed session])"
      using False by (simp_all add: st' writeSession_cases Let_def)
    from c s thumbs persisted_stripped [of session] persisted_trimmed [of session]
      clean [OF persisted_stripped [of session]] clean [OF persisted_trimmed [of session]]
      large
    show ?thesis
      by (intro exI [of _ "stripped session"] exI [of _ "[trimmed session]"]) simp
  qed
qed

theorem saveEventSession_strips_witness:
  "saveEventSession tightEnv demoSession emptyState
     = Inr (projr (saveEventSession tightEnv demoSession emptyState))
   \<and> (\<exists>first rest.
         setItemCalls (projr (saveEventSession tightEnv demoSession emptyState))
           = map JSON_stringify (first # rest)
         \<and> list_all2 persistedCar (cars first) (cars demoSession))"
proof -
  have h: "saveEventSession tightEnv demoSession emptyState
     = Inr (projr (saveEventSession tightEnv demoSession emptyState))"
    by (simp add: saveEventSession_Inr)
  from saveEventSession_strips [OF h, where url = None] show ?thesis
    using h by (auto simp add: emptyState_def)
qed

section \<open>Reading and updating the session\<close>

lemma stripped_no_cars: "cars session = [] \<Longrightarrow> stripped session = session"
  by (simp add: stripped_def)

lemma trimmed_no_cars: "cars session = [] \<Longrightarrow> trimmed session = session"
  by (simp add: trimmed_def stripped_def)

lemma createNewEventSession_result:
  "createNewEventSession env st =
     Inr (freshSession env,
          (let t = JSON_stringify (freshSession env);
               st1 = (if quota env t
                      then st\<lparr>storage := (storage st)(EVENT_SESSION \<mapsto> t),
                              setItemCalls := setItemCalls st @ [t]\<rparr>
                      else st\<lparr>storage := (storage st)(EVENT_SESSION := None),
                              setItemCalls := setItemCalls st @ [t, t]\<rparr>)
           in if truthy (userId st) then st1\<lparr>syncCalls := syncCalls st @ [freshSession env]\<rparr>
              else st1))"
proof -
  have n: "cars (freshSession env) = []" by (simp add: freshSession_def)
  show ?thesis
    unfolding createNewEventSession_def freshSession_def [symmetric] Let_def
    by (simp add: saveEventSession_Inr writeSession_cases stripped_no_cars [OF n]
        trimmed_no_cars [OF n] Let_def)
qed

text \<open>
  C9. When a text is stored for the session and \<open>JSON.parse\<close> fails on it,
  \<open>getEventSession\<close> does not throw: it returns a new session (the new id, today's date,
  no cars), and the text that did not parse is gone from the storage, replaced by the
  new session's text or, when the storage does not accept that, by nothing.
\<close>

theorem getEventSession_corrupted:
  assumes "storage st EVENT_SESSION = Some t" and "JSON_parse t = Inl e"
  shows "\<exists>session st'.
           getEventSession env st = Inr (session, st')
           \<and> ev_id session = newId env \<and> ev_date session = today env \<and> cars session = []
           \<and> ev_name session = ''Cars & Coffee'' \<and> ev_createdAt session = now env
           \<and> storage st' EVENT_SESSION \<noteq> Some t
           \<and> storage st' = (storage st)(EVENT_SESSION :=
                 (if quota env (JSON_stringify session) then Some (JSON_stringify session)
                  else None))"
proof (cases t)
  case EmptyText
  with assms(1) show ?thesis
    by (simp add: getEventSession_def readStoredSession_def getItem_def
        createNewEventSession_result freshSession_def Let_def JSON_stringify_def)
next
  case Unparsable
  with assms(1) show ?thesis
    by (simp add: getEventSession_def readStoredSession_def getItem_def
        createNewEventSession_result removeItem_def freshSession_def Let_def
        JSON_stringify_def)
next
  case (SessionJson session)
  with assms(2) show ?thesis by simp
qed

theorem getEventSession_corrupted_witness:
  "storage corruptState EVENT_SESSION = Some Unparsable
   \<and> JSON_parse Unparsable = Inl SyntaxError
   \<and> (\<exists>st'. getEventSession demoEnv corruptState = Inr (freshSession demoEnv, st')
         \<and> storage st' EVENT_SESSION = Some (JSON_stringify (freshSession demoEnv)))"
proof -
  have h: "storage corruptState EVENT_SESSION = Some Unparsable"
    by (simp add: corruptState_def emptyState_def)
  have p: "JSON_parse Unparsable = Inl SyntaxError" by simp
  from getEventSession_corrupted [OF h p, of demoEnv]
  obtain session st' where r: "getEventSession demoEnv corruptState = Inr (session, st')"
    "ev_id session = newId demoEnv" "ev_date session = today demoEnv" "cars session = []"
    "ev_name session = ''Cars & Coffee''" "ev_createdAt session = now demoEnv"
    "storage st' = (storage corruptState)(EVENT_SESSION :=
                 (if quota demoEnv (JSON_stringify session) then Some (JSON_stringify session)
                  else None))"
    by blast
  have s: "session = freshSession demoEnv"
    using r(2-6) by (cases session) (simp add: freshSession_def)
  have "storage st' EVENT_SESSION = Some (JSON_stringify (freshSession demoEnv))"
    using r(7) s by (simp add: demoEnv_def)
  with h p r(1) s show ?thesis by auto
qed

lemma findIndex_Some:
  "findIndex p xs = Some i \<Longrightarrow> i < length xs \<and> p (xs ! i) \<and> (\<forall>j < i. \<not> p (xs ! j))"
proof (induction xs arbitrary: i)
  case Nil
  then show ?case by simp
next
  case (Cons x xs)
  show ?case
  proof (cases "p x")
    case True
    with Cons.prems show ?thesis by simp
  next
    case False
    with Cons.prems obtain k where k: "findIndex p xs = Some k" "i = Suc k"
      by (auto split: option.splits)
    from Cons.IH [OF k(1)] False k(2) show ?thesis
      by (auto simp add: less_Suc_eq_0_disj)
  qed
qed


lemma mergeCar_absent:
  "(u_id u = None \<longrightarrow> car_id (mergeCar car u) = car_id car)
   \<and> (u_photoBase64 u = None \<longrightarrow> photoBase64 (mergeCar car u) = photoBase64 car)
   \<and> (u_photoThumbnail u = None \<longrightarrow> photoThumbnail (mergeCar car u) = photoThumbnail car)
   \<and> (u_identity u = None \<longrightarrow> car_identity (mergeCar car u) = car_identity car)
   \<and> (u_styles u = None \<longrightarrow> styles (mergeCar car u) = styles car)
   \<and> (u_mockups u = None \<longrightarrow> mockups (mergeCar car u) = mockups car)
   \<and> (u_orders u = None \<longrightarrow> orders (mergeCar car u) = orders car)
   \<and> (u_createdAt u = None \<longrightarrow> car_createdAt (mergeCar car u) = car_createdAt car)
   \<and> (u_shareUrl u = None \<longrightarrow> shareUrl (mergeCar car u) = shareUrl car)"
  by (simp add: mergeCar_def)


text \<open>
  C10, as amended. Let \<open>getEventSession\<close> return \<open>session\<close>. When no car of it has the id
  \<open>carId\<close>, \<open>updateCarSession\<close> does what \<open>getEventSession\<close> does and no more; in
  particular, when a session of today is stored, the state is left as it was: nothing is
  written and nothing is synced. When a car has the id, the first such car, and only
  it, is replaced by its merge with the update, the session is saved, and a field that
  the update does not give keeps its value.
\<close>

theorem updateCarSession_frame:
  assumes "getEventSession env st = Inr (session, st1)"
  shows "(findIndex (\<lambda>c. car_id c = carId) (cars session) = None \<longrightarrow>
            updateCarSession env carId update st = Inr (session, st1))
       \<and> (storage st EVENT_SESSION = Some (JSON_stringify session) \<and> ev_date session = today env
            \<and> findIndex (\<lambda>c. car_id c = carId) (cars session) = None \<longrightarrow>
            updateCarSession env carId update st = Inr (session, st))
       \<and> (\<forall>idx. findIndex (\<lambda>c. car_id c = carId) (cars session) = Some idx \<longrightarrow>
            (\<exists>session' st2.
               updateCarSession env carId update st = Inr (session', st2)
               \<and> saveEventSession env session' st1 = Inr st2
               \<and> idx < length (cars session) \<and> car_id (cars session ! idx) = carId
               \<and> (\<forall>j < idx. car_id (cars session ! j) \<noteq> carId)
               \<and> length (cars session') = length (cars session)
               \<and> cars session' ! idx = mergeCar (cars session ! idx) update
               \<and> (\<forall>j < length (cars session). j \<noteq> idx \<longrightarrow> cars session' ! j = cars session ! j)
               \<and> session'\<lparr>cars := []\<rparr> = session\<lparr>cars := []\<rparr>))
       \<and> (u_id update = None \<longrightarrow> car_id (mergeCar car update) = car_id car)
       \<and> (u_photoBase64 update = None \<longrightarrow> photoBase64 (mergeCar car update) = photoBase64 car)
       \<and> (u_photoThumbnail update = None \<longrightarrow>
            photoThumbnail (mergeCar car update) = photoThumbnail car)
       \<and> (u_identity update = None \<longrightarrow> car_identity (mergeCar car update) = car_identity car)
       \<and> (u_styles update = None \<longrightarrow> styles (mergeCar car update) = styles car)
       \<and> (u_mockups update = None \<longrightarrow> mockups (mergeCar car update) = mockups car)
       \<and> (u_orders update = None \<longrightarrow> orders (mergeCar car update) = orders car)
       \<and> (u_createdAt update = None \<longrightarrow> car_createdAt (mergeCar car update) = car_createdAt car)
       \<and> (u_shareUrl update = None \<longrightarrow> shareUrl (mergeCar car update) = shareUrl car)"
proof -
  have a: "findIndex (\<lambda>c. car_id c = carId) (cars session) = None \<longrightarrow>
            updateCarSession env carId update st = Inr (session, st1)"
    using assms by (simp add: updateCarSession_def)
  have b: "storage st EVENT_SESSION = Some (JSON_stringify session) \<and> ev_date session = today env
            \<and> findIndex (\<lambda>c. car_id c = carId) (cars session) = None \<longrightarrow>
            updateCarSession env carId update st = Inr (session, st)"
    by (simp add: updateCarSession_def getEventSession_def readStoredSession_def getItem_def
        JSON_stringify_def)
  have c: "\<exists>session' st2.
               updateCarSession env carId update st = Inr (session', st2)
               \<and> saveEventSession env session' st1 = Inr st2
               \<and> idx < length (cars session) \<and> car_id (cars session ! idx) = carId
               \<and> (\<forall>j < idx. car_id (cars session ! j) \<noteq> carId)
               \<and> length (cars session') = length (cars session)
               \<and> cars session' ! idx = mergeCar (cars session ! idx) update
               \<and> (\<forall>j < length (cars session). j \<noteq> idx \<longrightarrow> cars session' ! j = cars session ! j)
               \<and> session'\<lparr>cars := []\<rparr> = session\<lparr>cars := []\<rparr>"
    if f: "findIndex (\<lambda>c. car_id c = carId) (cars session) = Some idx" for idx
  proof -
    from findIndex_Some [OF f]
    have i: "idx < length (cars session)" "car_id (cars session ! idx) = carId"
      "\<forall>j < idx. car_id (cars session ! j) \<noteq> carId"
      by simp_all
    show ?thesis
      using assms f i
      by (simp add: updateCarSession_def saveEventSession_Inr Let_def)
  qed
  from a b c mergeCar_absent [of update car] show ?thesis by blast
qed

lemma getEventSession_today:
  "getEventSession demoEnv todayState = Inr (demoSession, todayState)"
  by (simp add: getEventSession_def readStoredSession_def getItem_def todayState_def
      emptyState_def JSON_stringify_def demoSession_def demoEnv_def)

theorem updateCarSession_frame_witness:
  "getEventSession demoEnv todayState = Inr (demoSession, todayState)
   \<and> findIndex (\<lambda>c. car_id c = ''car-3'') (cars demoSession) = Some 1
   \<and> (\<exists>session' st2.
         updateCarSession demoEnv ''car-3'' photoUpdate todayState = Inr (session', st2)
         \<and> cars session' ! 1 = mergeCar (cars demoSession ! 1) photoUpdate
         \<and> cars session' ! 0 = cars demoSession ! 0)
   \<and> findIndex (\<lambda>c. car_id c = ''car-9'') (cars demoSession) = None
   \<and> updateCarSession demoEnv ''car-9'' photoUpdate todayState = Inr (demoSession, todayState)
   \<and> u_styles photoUpdate = None
   \<and> styles (mergeCar (demoCar ''car-3'') photoUpdate) = styles (demoCar ''car-3'')"
proof -
  note g = getEventSession_today
  have f3: "findIndex (\<lambda>c. car_id c = ''car-3'') (cars demoSession) = Some 1"
    by (simp add: demoSession_def demoCar_def)
  have f9: "findIndex (\<lambda>c. car_id c = ''car-9'') (cars demoSession) = None"
    by (simp add: demoSession_def demoCar_def)
  have l: "(0::nat) < length (cars demoSession)"
    by (simp add: demoSession_def)
  have u: "u_styles photoUpdate = None"
    by (simp add: photoUpdate_def noUpdate_def)
  from updateCarSession_frame [OF g, of "''car-3''" photoUpdate "demoCar ''car-3''"] f3 l
  have found: "\<exists>session' st2.
         updateCarSession demoEnv ''car-3'' photoUpdate todayState = Inr (session', st2)
         \<and> cars session' ! 1 = mergeCar (cars demoSession ! 1) photoUpdate
         \<and> cars session' ! 0 = cars demoSession ! 0"
    by auto
  from updateCarSession_frame [OF g, of "''car-9''" photoUpdate "demoCar ''car-3''"] f9 u
  have missing: "updateCarSession demoEnv ''car-9'' photoUpdate todayState = Inr (demoSession, todayState)"
    and kept: "styles (mergeCar (demoCar ''car-3'') photoUpdate) = styles (demoCar ''car-3'')"
    by simp_all
  from g f3 found f9 missing u kept show ?thesis by simp
qed

text \<open>
  C10 as stated fails when the stored session is of another day: no car has the id, and
  yet \<open>updateCarSession\<close>, through the rollover of \<open>getEventSession\<close>, replaces the stored
  session by a new one and calls \<open>setItem\<close>.
\<close>

theorem updateCarSession_rollover_counterexample:
  "storage staleState EVENT_SESSION = Some (JSON_stringify staleSession)
   \<and> findIndex (\<lambda>c. car_id c = ''car-9'') (cars staleSession) = None
   \<and> findIndex (\<lambda>c. car_id c = ''car-9'') (cars (freshSession demoEnv)) = None
   \<and> updateCarSession demoEnv ''car-9'' noUpdate staleState =
        Inr (freshSession demoEnv,
             staleState\<lparr>storage := [EVENT_SESSION \<mapsto> JSON_stringify (freshSession demoEnv)],
                        setItemCalls := [JSON_stringify (freshSession demoEnv)]\<rparr>)
   \<and> JSON_stringify (freshSession demoEnv) \<noteq> JSON_stringify staleSession"
proof -
  have a: "storage staleState EVENT_SESSION = Some (JSON_stringify staleSession)"
    by (simp add: staleState_def emptyState_def)
  have b: "findIndex (\<lambda>c. car_id c = ''car-9'') (cars staleSession) = None"
    by (simp add: staleSession_def demoSession_def demoCar_def)
  have c: "findIndex (\<lambda>c. car_id c = ''car-9'') (cars (freshSession demoEnv)) = None"
    by (simp add: freshSession_def)
  have d: "ev_date staleSession \<noteq> today demoEnv"
    by (simp add: staleSession_def demoEnv_def)
  have g: "getEventSession demoEnv staleState =
        Inr (freshSession demoEnv,
             staleState\<lparr>storage := [EVENT_SESSION \<mapsto> JSON_stringify (freshSession demoEnv)],
                        setItemCalls := [JSON_stringify (freshSession demoEnv)]\<rparr>)"
    using d
    by (simp add: getEventSession_def readStoredSession_def getItem_def a JSON_stringify_def
        createNewEventSession_result Let_def)
       (simp add: staleState_def emptyState_def demoEnv_def)
  have e: "updateCarSession demoEnv ''car-9'' noUpdate staleState =
        Inr (freshSession demoEnv,
             staleState\<lparr>storage := [EVENT_SESSION \<mapsto> JSON_stringify (freshSession demoEnv)],
                        setItemCalls := [JSON_stringify (freshSession demoEnv)]\<rparr>)"
    by (simp add: updateCarSession_def g c)
  have f: "JSON_stringify (freshSession demoEnv) \<noteq> JSON_stringify staleSession"
    by (simp add: JSON_stringify_def freshSession_def staleSession_def demoSession_def)
  from a b c e f show ?thesis by simp
qed

section \<open>Loading the session from Supabase\<close>

lemma loadEventFromSupabase_signed_in:
  "truthy (userId st) \<Longrightarrow>
   loadEventFromSupabase (Some client) env st =
     (case loadBody client (orEmpty (userId st)) env st of
        Inl err \<Rightarrow> Inr (None, st) | Inr r \<Rightarrow> Inr r)"
  by (simp add: loadEventFromSupabase_def)

lemma loadBody_state:
  "loadBody client uid env st = Inr (r, st') \<Longrightarrow>
   (r = None \<and> st' = st) \<or> (\<exists>session. r = Some session \<and> st' = cacheSession env session st)"
  by (auto simp add: loadBody_def Let_def split: sum.splits option.splits list.splits)

text \<open>
  \<open>loadEventFromSupabase\<close> never throws, and these failures give \<open>null\<close> and leave the
  state as it was: no client, no user, a read of the events that throws or returns an
  error, no data or no row, a read of the cars that throws or returns an error or no
  data, and a read of the styles or of the orders that throws.
\<close>

lemma loadEventFromSupabase_null_paths:
  "(\<exists>r st'. loadEventFromSupabase sb env st = Inr (r, st'))
   \<and> (sb = None \<or> \<not> truthy (userId st) \<longrightarrow>
        loadEventFromSupabase sb env st = Inr (None, st))
   \<and> (sb = Some client \<and> truthy (userId st) \<longrightarrow>
        (selectEvents client (orEmpty (userId st)) (today env) = Inl e1 \<longrightarrow>
           loadEventFromSupabase sb env st = Inr (None, st))
      \<and> (selectEvents client (orEmpty (userId st)) (today env) = Inr evs
           \<and> (error evs \<noteq> None \<or> data evs = None \<or> data evs = Some []) \<longrightarrow>
           loadEventFromSupabase sb env st = Inr (None, st))
      \<and> (selectEvents client (orEmpty (userId st)) (today env) = Inr evs
           \<and> error evs = None \<and> data evs = Some (ev # others) \<longrightarrow>
           (selectCars client (er_id ev) = Inl e2 \<longrightarrow>
              loadEventFromSupabase sb env st = Inr (None, st))
         \<and> (selectCars client (er_id ev) = Inr crs
              \<and> (error crs \<noteq> None \<or> data crs = None) \<longrightarrow>
              loadEventFromSupabase sb env st = Inr (None, st))
         \<and> (selectCars client (er_id ev) = Inr crs \<and> error crs = None
              \<and> data crs = Some carRows \<longrightarrow>
              (selectStyles client (idsOrNone (map cr_id carRows)) = Inl e3 \<longrightarrow>
                 loadEventFromSupabase sb env st = Inr (None, st))
            \<and> (selectOrders client (idsOrNone (map cr_id carRows)) = Inl e4 \<longrightarrow>
                 loadEventFromSupabase sb env st = Inr (None, st)))))"
proof -
  have total: "\<exists>r st'. loadEventFromSupabase sb env st = Inr (r, st')"
    by (cases sb) (auto simp add: loadEventFromSupabase_def split: sum.splits)
  have off: "sb = None \<or> \<not> truthy (userId st) \<longrightarrow>
        loadEventFromSupabase sb env st = Inr (None, st)"
    by (cases sb) (simp_all add: loadEventFromSupabase_def)
  have on: "(selectEvents client (orEmpty (userId st)) (today env) = Inl e1 \<longrightarrow>
           loadEventFromSupabase sb env st = Inr (None, st))
      \<and> (selectEvents client (orEmpty (userId st)) (today env) = Inr evs
           \<and> (error evs \<noteq> None \<or> data evs = None \<or> data evs = Some []) \<longrightarrow>
           loadEventFromSupabase sb env st = Inr (None, st))
      \<and> (selectEvents client (orEmpty (userId st)) (today env) = Inr evs
           \<and> error evs = None \<and> data evs = Some (ev # others) \<longrightarrow>
           (selectCars client (er_id ev) = Inl e2 \<longrightarrow>
              loadEventFromSupabase sb env st = Inr (None, st))
         \<and> (selectCars client (er_id ev) = Inr crs
              \<and> (error crs \<noteq> None \<or> data crs = None) \<longrightarrow>
              loadEventFromSupabase sb env st = Inr (None, st))
         \<and> (selectCars client (er_id ev) = Inr crs \<and> error crs = None
              \<and> data crs = Some carRows \<longrightarrow>
              (selectStyles client (idsOrNone (map cr_id carRows)) = Inl e3 \<longrightarrow>
                 loadEventFromSupabase sb env st = Inr (None, st))
            \<and> (selectOrders client (idsOrNone (map cr_id carRows)) = Inl e4 \<longrightarrow>
                 loadEventFromSupabase sb env st = Inr (None, st))))"
    if sb: "sb = Some client" and u: "truthy (userId st)"
    unfolding sb loadEventFromSupabase_signed_in [OF u]
    by (auto simp add: loadBody_def Let_def split: sum.splits option.splits list.splits)
  from total off on show ?thesis by blast
qed

text \<open>
  C6. The code at the input where the claim fails. A user is signed in and today's
  session, with the styles of its cars, is the local copy; the reads of the events and
  of the cars succeed and the read of the styles returns an error object with no data.
  The claim, like the comment above the function and like the reads of the events and
  of the cars (the same error object on the read of the cars gives \<open>null\<close> and leaves
  the state as it was), calls for \<open>null\<close>. The code returns the session built without
  styles and writes it over the local copy. The read of the orders has the same slip.
\<close>

theorem loadEventFromSupabase_styles_error:
  "selectStyles stylesFailClient (idsOrNone [''car-1''])
     = Inr \<lparr>data = None, error = Some ''permission denied''\<rparr>
   \<and> truthy (userId signedInState)
   \<and> storage signedInState EVENT_SESSION = Some (JSON_stringify demoSession)
   \<and> loadEventFromSupabase (Some stylesFailClient) demoEnv signedInState
       = Inr (Some partialSession,
              signedInState\<lparr>storage := [EVENT_SESSION \<mapsto> JSON_stringify partialSession],
                            setItemCalls := [JSON_stringify partialSession]\<rparr>)
   \<and> map styles (cars partialSession) = [Nil]
   \<and> selectCars carsFailClient ''ev-1''
       = Inr \<lparr>data = None, error = Some ''permission denied''\<rparr>
   \<and> loadEventFromSupabase (Some carsFailClient) demoEnv signedInState
       = Inr (None, signedInState)
   \<and> selectOrders ordersFailClient (idsOrNone [''car-1''])
       = Inr \<lparr>data = None, error = Some ''permission denied''\<rparr>
   \<and> loadEventFromSupabase (Some ordersFailClient) demoEnv signedInState
       = Inr (Some partialSession,
              signedInState\<lparr>storage := [EVENT_SESSION \<mapsto> JSON_stringify partialSession],
                            setItemCalls := [JSON_stringify partialSession]\<rparr>)"
proof -
  have u: "truthy (userId signedInState)"
    by (simp add: signedInState_def todayState_def emptyState_def)
  have l: "storage signedInState EVENT_SESSION = Some (JSON_stringify demoSession)"
    by (simp add: signedInState_def todayState_def emptyState_def)
  have q: "selectStyles stylesFailClient (idsOrNone [''car-1''])
     = Inr \<lparr>data = None, error = Some ''permission denied''\<rparr>"
    and c: "selectCars carsFailClient ''ev-1''
       = Inr \<lparr>data = None, error = Some ''permission denied''\<rparr>"
    and o: "selectOrders ordersFailClient (idsOrNone [''car-1''])
       = Inr \<lparr>data = None, error = Some ''permission denied''\<rparr>"
    by (simp_all add: stylesFailClient_def carsFailClient_def ordersFailClient_def)
  have b: "buildSession demoEventRow [demoCarRow] [] [] = partialSession"
    by (simp add: buildSession_def carOfRow_def groupRows_def rowsOf_def demoEventRow_def
        demoCarRow_def partialSession_def)
  have w: "cacheSession demoEnv partialSession signedInState
      = signedInState\<lparr>storage := [EVENT_SESSION \<mapsto> JSON_stringify partialSession],
                      setItemCalls := [JSON_stringify partialSession]\<rparr>"
    by (simp add: cacheSession_def setItem_def logSetItem_def demoEnv_def signedInState_def
        todayState_def emptyState_def Let_def)
  have s: "loadEventFromSupabase (Some stylesFailClient) demoEnv signedInState
       = Inr (Some partialSession, cacheSession demoEnv partialSession signedInState)"
    unfolding loadEventFromSupabase_signed_in [OF u]
    by (simp add: loadBody_def stylesFailClient_def Let_def b)
  have r: "loadEventFromSupabase (Some ordersFailClient) demoEnv signedInState
       = Inr (Some partialSession, cacheSession demoEnv partialSession signedInState)"
    unfolding loadEventFromSupabase_signed_in [OF u]
    by (simp add: loadBody_def ordersFailClient_def stylesFailClient_def Let_def b)
  have n: "loadEventFromSupabase (Some carsFailClient) demoEnv signedInState
       = Inr (None, signedInState)"
    unfolding loadEventFromSupabase_signed_in [OF u]
    by (simp add: loadBody_def carsFailClient_def stylesFailClient_def)
  have p: "map styles (cars partialSession) = [Nil]"
    by (simp add: partialSession_def)
  from q u l s w p c n o r show ?thesis by simp
qed

section \<open>The batched orchestrator\<close>

lemma trace_foldl_applyEvent: "trace (foldl applyEvent st evs) = trace st @ evs"
proof (induction evs arbitrary: st)
  case Nil
  then show ?case by simp
next
  case (Cons ev evs)
  from Cons.IH [of "applyEvent st ev"] show ?case by (simp add: applyEvent_def)
qed

lemma trace_runWindow:
  "trace (runWindow env identity ref cs i st) =
     trace st @ windowTimeline env identity ref (clock st) i (take MAX_CONCURRENT (drop i cs))"
  by (simp add: runWindow_def Let_def trace_foldl_applyEvent)

lemma clock_runWindow:
  "clock (runWindow env identity ref cs i st) =
     fold max (map fst (windowTimeline env identity ref (clock st) i
       (take MAX_CONCURRENT (drop i cs)))) (clock st)"
  by (simp add: runWindow_def Let_def)

lemma fold_max_Max: "fold max xs (t::nat) = Max (insert t (set xs))"
  using Max.set_eq_fold [of t xs] by simp

lemma batch_full:
  "Suc i < length cs \<Longrightarrow> take MAX_CONCURRENT (drop i cs) = [cs ! i, cs ! Suc i]"
  by (simp add: MAX_CONCURRENT_def numeral_2_eq_2 Cons_nth_drop_Suc [symmetric])

lemma batch_last:
  "i < length cs \<Longrightarrow> \<not> Suc i < length cs \<Longrightarrow> take MAX_CONCURRENT (drop i cs) = [cs ! i]"
  by (simp add: MAX_CONCURRENT_def numeral_2_eq_2 Cons_nth_drop_Suc [symmetric])

lemma mset_windowTimeline:
  "mset (windowTimeline env identity ref t i batch) =
     mset (concat (map (requestTimeline env identity ref t i) (enumerate 0 batch)))"
  by (simp only: windowTimeline_def mset_sort)

lemma Max_windowTimeline:
  "fold max (map fst (windowTimeline env identity ref t i batch)) t =
     Max (insert t (fst ` set (concat (map (requestTimeline env identity ref t i) (enumerate 0 batch)))))"
  by (simp only: fold_max_Max windowTimeline_def set_map set_sort)

lemma window_full:
  assumes "Suc i < length cs" and "even i" and "t = windowStart env t0 (i div 2)"
  shows "mset (windowTimeline env identity ref t i (take MAX_CONCURRENT (drop i cs))) =
           mset (requestEvents env identity ref cs t0 i @ requestEvents env identity ref cs t0 (Suc i))"
    and "fold max (map fst (windowTimeline env identity ref t i (take MAX_CONCURRENT (drop i cs)))) t
           = windowStart env t0 (Suc (i div 2))"
proof -
  have d: "Suc i div 2 = i div 2" using assms(2) by simp
  have e: "2 * (i div 2) = i" using assms(2) by simp
  show "mset (windowTimeline env identity ref t i (take MAX_CONCURRENT (drop i cs))) =
           mset (requestEvents env identity ref cs t0 i @ requestEvents env identity ref cs t0 (Suc i))"
    using assms(2,3)
    by (simp add: batch_full [OF assms(1)] mset_windowTimeline requestTimeline_def
        requestEvents_def issuedAt_def settledAt_def d Let_def add.assoc)
  show "fold max (map fst (windowTimeline env identity ref t i (take MAX_CONCURRENT (drop i cs)))) t
           = windowStart env t0 (Suc (i div 2))"
    using assms(3)
    by (simp add: Max_windowTimeline batch_full [OF assms(1)] requestTimeline_def
        Let_def e max_def)
qed

lemma window_last:
  assumes "i < length cs" and "\<not> Suc i < length cs" and "even i"
    and "t = windowStart env t0 (i div 2)"
  shows "mset (windowTimeline env identity ref t i (take MAX_CONCURRENT (drop i cs))) =
           mset (requestEvents env identity ref cs t0 i)"
  using assms(3,4)
  by (simp add: batch_last [OF assms(1,2)] mset_windowTimeline requestTimeline_def
      requestEvents_def issuedAt_def settledAt_def Let_def)

lemma loop_done:
  "\<not> i < length cs \<Longrightarrow> generateLoop env identity ref cs i st = st"
  by (simp add: generateLoop.simps)

lemma loop_step:
  "i < length cs \<Longrightarrow> generateLoop env identity ref cs i st =
     generateLoop env identity ref cs (i + MAX_CONCURRENT) (runWindow env identity ref cs i st)"
  by (simp add: generateLoop.simps)

lemma mset_trace_generateLoop:
  "even i \<Longrightarrow> clock st = windowStart env t0 (i div 2) \<Longrightarrow>
   mset (trace (generateLoop env identity ref cs i st)) =
     mset (trace st) + mset (concat (map (requestEvents env identity ref cs t0) [i..<length cs]))"
proof (induction env identity ref cs i st rule: generateLoop.induct)
  case (1 env identity ref cs i st)
  show ?case
  proof (cases "i < length cs")
    case False
    then show ?thesis by (simp add: loop_done)
  next
    case True
    note lt = True
    let ?st1 = "runWindow env identity ref cs i st"
    show ?thesis
    proof (cases "Suc i < length cs")
      case True
      have ev: "even (i + MAX_CONCURRENT)" using "1.prems"(1) by (simp add: MAX_CONCURRENT_def)
      have ck: "clock ?st1 = windowStart env t0 ((i + MAX_CONCURRENT) div 2)"
        using window_full(2) [OF True "1.prems"(1), of "clock st" env t0 identity ref] "1.prems"(2)
        by (simp add: clock_runWindow MAX_CONCURRENT_def)
      have up: "[i..<length cs] = i # Suc i # [i + MAX_CONCURRENT..<length cs]"
        using True by (simp add: upt_conv_Cons MAX_CONCURRENT_def)
      have tr: "mset (trace ?st1) = mset (trace st)
          + mset (requestEvents env identity ref cs t0 i @ requestEvents env identity ref cs t0 (Suc i))"
        using window_full(1) [OF True "1.prems"(1), of "clock st" env t0 identity ref] "1.prems"(2)
        by (simp add: trace_runWindow)
      show ?thesis
        using "1.IH" [OF lt ev ck] tr
        by (simp add: loop_step [OF lt] up)
    next
      case False
      have up: "[i..<length cs] = [i]"
        using lt False by (simp add: upt_conv_Cons)
      have dn: "generateLoop env identity ref cs (i + MAX_CONCURRENT) ?st1 = ?st1"
        using False by (simp add: MAX_CONCURRENT_def loop_done)
      have tr: "mset (trace ?st1) = mset (trace st) + mset (requestEvents env identity ref cs t0 i)"
        using window_last [OF lt False "1.prems"(1), of "clock st" env t0 identity ref] "1.prems"(2)
        by (simp add: trace_runWindow)
      show ?thesis
        using tr by (simp add: loop_step [OF lt] dn up)
    qed
  qed
qed

lemma times_requestTimeline:
  "te \<in> set (requestTimeline env identity ref t i bc) \<Longrightarrow> t \<le> fst te"
  by (auto simp add: requestTimeline_def Let_def)

lemma times_windowTimeline:
  "te \<in> set (windowTimeline env identity ref t i batch) \<Longrightarrow> t \<le> fst te"
  by (auto simp add: windowTimeline_def dest: times_requestTimeline)

lemma sorted_windowTimeline: "sorted (map fst (windowTimeline env identity ref t i batch))"
  by (simp add: windowTimeline_def)

lemma clock_runWindow_ge: "clock st \<le> clock (runWindow env identity ref cs i st)"
  by (simp add: clock_runWindow fold_max_Max)

lemma clock_runWindow_ge_events:
  "te \<in> set (windowTimeline env identity ref (clock st) i (take MAX_CONCURRENT (drop i cs)))
     \<Longrightarrow> fst te \<le> clock (runWindow env identity ref cs i st)"
  by (simp add: clock_runWindow fold_max_Max)

lemma sorted_trace_generateLoop:
  "sorted (map fst (trace st)) \<Longrightarrow> \<forall>te \<in> set (trace st). fst te \<le> clock st \<Longrightarrow>
   sorted (map fst (trace (generateLoop env identity ref cs i st)))"
proof (induction env identity ref cs i st rule: generateLoop.induct)
  case (1 env identity ref cs i st)
  show ?case
  proof (cases "i < length cs")
    case False
    with "1.prems" show ?thesis by (simp add: loop_done)
  next
    case True
    let ?st1 = "runWindow env identity ref cs i st"
    let ?w = "windowTimeline env identity ref (clock st) i (take MAX_CONCURRENT (drop i cs))"
    have s: "sorted (map fst (trace ?st1))"
      using "1.prems" sorted_windowTimeline [of env identity ref "clock st" i]
        times_windowTimeline [of _ env identity ref "clock st" i]
      by (fastforce simp add: trace_runWindow sorted_append)
    have b: "\<forall>te \<in> set (trace ?st1). fst te \<le> clock ?st1"
      using "1.prems"(2) clock_runWindow_ge [of st env identity ref cs i]
        clock_runWindow_ge_events [of _ env identity ref st i cs]
      by (fastforce simp add: trace_runWindow)
    from "1.IH" [OF True s b] show ?thesis by (simp add: loop_step [OF True])
  qed
qed

lemma windowStart_mono: "w \<le> w' \<Longrightarrow> windowStart env t0 w \<le> windowStart env t0 w'"
proof (induction w')
  case 0
  then show ?case by simp
next
  case (Suc w')
  show ?case
  proof (cases "w = Suc w'")
    case True
    then show ?thesis by simp
  next
    case False
    with Suc.prems have "w \<le> w'" by simp
    from Suc.IH [OF this] show ?thesis by (simp add: max_def)
  qed
qed

lemma settledAt_le_next: "settledAt env t0 j \<le> windowStart env t0 (Suc (j div 2))"
proof (cases "even j")
  case True
  then have "2 * (j div 2) = j" by simp
  with True show ?thesis by (simp add: settledAt_def issuedAt_def)
next
  case False
  then have "2 * (j div 2) + 1 = j" by (simp add: odd_two_times_div_two_succ)
  with False show ?thesis by (simp add: settledAt_def issuedAt_def)
qed

lemma window_barrier:
  assumes "j div 2 < k div 2"
  shows "settledAt env t0 j \<le> issuedAt env t0 k"
proof -
  have "settledAt env t0 j \<le> windowStart env t0 (Suc (j div 2))"
    by (rule settledAt_le_next)
  also have "\<dots> \<le> windowStart env t0 (k div 2)"
    using assms by (intro windowStart_mono) simp
  also have "\<dots> \<le> issuedAt env t0 k"
    by (simp add: issuedAt_def)
  finally show ?thesis .
qed

lemma next_window_start:
  assumes "even k"
  shows "issuedAt env t0 (k + 2) = max (settledAt env t0 k) (settledAt env t0 (Suc k))"
proof -
  have e: "2 * (k div 2) = k" and d: "Suc k div 2 = k div 2" using assms by simp_all
  show ?thesis
    using assms by (simp add: issuedAt_def settledAt_def e d add.assoc)
qed

lemma stagger:
  assumes "odd k"
  shows "issuedAt env t0 k = issuedAt env t0 (k - 1) + 500 + timerLag env k"
proof -
  from assms obtain m where k: "k = Suc (2 * m)" by (auto elim: oddE)
  show ?thesis by (simp add: k issuedAt_def)
qed

lemma mset_trace_generateAllStyles:
  "mset (trace (generateAllStyles env identity cs ref t0)) =
     mset (concat (map (requestEvents env identity ref cs t0) [0..<length cs]))"
  using mset_trace_generateLoop
    [of 0 "\<lparr>clock = t0, results = Map.empty, trace = []\<rparr>" env t0 identity ref cs]
  by (simp add: generateAllStyles_def)

lemma set_trace_generateAllStyles:
  "set (trace (generateAllStyles env identity cs ref t0)) =
     set (concat (map (requestEvents env identity ref cs t0) [0..<length cs]))"
  by (rule mset_eq_setD [OF mset_trace_generateAllStyles])

text \<open>
  C3. The events of \<open>generateAllStyles\<close> are those of the schedule: the request at list
  position \<open>k\<close> belongs to window \<open>k div 2\<close>, is called once, with the config at position
  \<open>k\<close>, at \<open>issuedAt k\<close>, and settles at \<open>settledAt k\<close>; the trace is in the order of time.
  The first request of a window is called when the window starts, which for the first
  window is the time of the call of \<open>generateAllStyles\<close> and for the next one the time at
  which both requests of the window before have settled; the second request is called
  500 ms, and the lag of its timer, after the first; no request of a later window is
  called before a request of an earlier window has settled.
\<close>

theorem generateAllStyles_windows:
  "mset (trace (generateAllStyles env identity cs ref t0)) =
     mset (concat (map (requestEvents env identity ref cs t0) [0..<length cs]))
   \<and> sorted (map fst (trace (generateAllStyles env identity cs ref t0)))
   \<and> issuedAt env t0 0 = t0
   \<and> (even k \<longrightarrow> issuedAt env t0 k = windowStart env t0 (k div 2)
        \<and> issuedAt env t0 (k + 2) = max (settledAt env t0 k) (settledAt env t0 (Suc k)))
   \<and> (odd k \<longrightarrow> issuedAt env t0 k = issuedAt env t0 (k - 1) + 500 + timerLag env k
        \<and> issuedAt env t0 k \<ge> windowStart env t0 (k div 2) + 500)
   \<and> (j div 2 < k div 2 \<longrightarrow> settledAt env t0 j \<le> issuedAt env t0 k)
   \<and> settledAt env t0 k = issuedAt env t0 k + latency env k"
proof -
  let ?st0 = "\<lparr>clock = t0, results = Map.empty, trace = []\<rparr>"
  have m: "mset (trace (generateAllStyles env identity cs ref t0)) =
     mset (concat (map (requestEvents env identity ref cs t0) [0..<length cs]))"
    by (rule mset_trace_generateAllStyles)
  have s: "sorted (map fst (trace (generateAllStyles env identity cs ref t0)))"
    using sorted_trace_generateLoop [of ?st0 env identity ref cs 0]
    by (simp add: generateAllStyles_def)
  have z: "issuedAt env t0 0 = t0" by (simp add: issuedAt_def)
  have e: "even k \<longrightarrow> issuedAt env t0 k = windowStart env t0 (k div 2)
        \<and> issuedAt env t0 (k + 2) = max (settledAt env t0 k) (settledAt env t0 (Suc k))"
    using next_window_start [of k env t0] by (simp add: issuedAt_def)
  have o: "odd k \<longrightarrow> issuedAt env t0 k = issuedAt env t0 (k - 1) + 500 + timerLag env k
        \<and> issuedAt env t0 k \<ge> windowStart env t0 (k div 2) + 500"
    using stagger [of k env t0] by (simp add: issuedAt_def)
  have b: "j div 2 < k div 2 \<longrightarrow> settledAt env t0 j \<le> issuedAt env t0 k"
    using window_barrier [of j k env t0] by simp
  have l: "settledAt env t0 k = issuedAt env t0 k + latency env k"
    by (simp add: settledAt_def)
  from m s z e o b l show ?thesis by blast
qed

theorem generateAllStyles_windows_witness:
  "even (2::nat) \<and> odd (3::nat) \<and> (1::nat) div 2 < 2 div 2
   \<and> sorted (map fst (trace (generateAllStyles demoRemote supraIdentity demoStyleConfigs None 0)))
   \<and> issuedAt demoRemote 0 2 = windowStart demoRemote 0 1
   \<and> issuedAt demoRemote 0 3 = issuedAt demoRemote 0 2 + 500 + timerLag demoRemote 3
   \<and> settledAt demoRemote 0 1 \<le> issuedAt demoRemote 0 2
   \<and> windowStart demoRemote 0 1 = 3000"
proof -
  have w: "windowStart demoRemote 0 (Suc 0) = 3000"
    by (simp add: demoRemote_def)
  show ?thesis
    using generateAllStyles_windows [of demoRemote supraIdentity demoStyleConfigs None 0 2 1]
      generateAllStyles_windows [of demoRemote supraIdentity demoStyleConfigs None 0 3 1] w
    by simp
qed

lemma results_foldl_applyEvent:
  "results (foldl applyEvent st evs) = foldl storeResult (results st) (map snd evs)"
  by (induction evs arbitrary: st) (simp_all add: applyEvent_def)

lemma storeResult_call: "isCall e \<Longrightarrow> storeResult m e = m"
  by (cases e) simp_all

lemma foldl_storeResult_settles:
  "foldl storeResult m es = foldl storeResult m (filter (\<lambda>e. \<not> isCall e) es)"
  by (induction es arbitrary: m) (simp_all add: storeResult_call)

lemma not_call_settleEvent [simp]: "\<not> isCall (settleEvent env k c)"
  by (simp add: settleEvent_def split: sum.splits)

lemma filter_snd_sort:
  "filter p (map snd (sort_key fst evs)) = map snd (sort_key fst (filter (\<lambda>te. p (snd te)) evs))"
  by (simp add: filter_map comp_def filter_sort)

text \<open>A window of two requests, run from any state.\<close>

lemma pair_timeline:
  assumes "Suc i < length cs"
  shows "windowTimeline env identity ref t i (take MAX_CONCURRENT (drop i cs)) =
    sort_key fst
      [(t, GenerateArtCalled i identity (cs ! i) ref),
       (t + latency env i, settleEvent env i (cs ! i)),
       (t + 500 + timerLag env (Suc i), GenerateArtCalled (Suc i) identity (cs ! Suc i) ref),
       (t + 500 + timerLag env (Suc i) + latency env (Suc i), settleEvent env (Suc i) (cs ! Suc i))]"
  by (simp only: batch_full [OF assms] windowTimeline_def)
     (simp add: requestTimeline_def Let_def)

lemma pair_calls:
  assumes "Suc i < length cs"
  shows "callsOf (trace (runWindow env identity ref cs i st)) =
     callsOf (trace st) @ [GenerateArtCalled i identity (cs ! i) ref,
                           GenerateArtCalled (Suc i) identity (cs ! Suc i) ref]"
  unfolding callsOf_def trace_runWindow pair_timeline [OF assms] map_append filter_append
    filter_snd_sort
  by simp

lemma pair_settles:
  assumes "Suc i < length cs"
  shows "mset (filter (\<lambda>e. \<not> isCall e) (map snd (trace (runWindow env identity ref cs i st)))) =
     mset (filter (\<lambda>e. \<not> isCall e) (map snd (trace st)))
       + {#settleEvent env i (cs ! i), settleEvent env (Suc i) (cs ! Suc i)#}"
  unfolding trace_runWindow pair_timeline [OF assms] map_append filter_append
    filter_snd_sort
  by simp

lemma pair_results:
  assumes "Suc i < length cs"
  shows "results (runWindow env identity ref cs i st) =
           storeResult (storeResult (results st) (settleEvent env i (cs ! i)))
             (settleEvent env (Suc i) (cs ! Suc i))
       \<or> results (runWindow env identity ref cs i st) =
           storeResult (storeResult (results st) (settleEvent env (Suc i) (cs ! Suc i)))
             (settleEvent env i (cs ! i))"
proof -
  have "results (runWindow env identity ref cs i st) =
      foldl storeResult (results st)
        (filter (\<lambda>e. \<not> isCall e) (map snd
          (windowTimeline env identity ref (clock st) i (take MAX_CONCURRENT (drop i cs)))))"
    using foldl_storeResult_settles [of "results st"]
    by (simp add: runWindow_def Let_def results_foldl_applyEvent)
  then show ?thesis
    unfolding pair_timeline [OF assms] filter_snd_sort
    by (simp split: if_splits)
qed

lemma completes_from_settles:
  "mset (completesOf tr) = filter_mset isComplete (mset (filter (\<lambda>e. \<not> isCall e) (map snd tr)))"
proof -
  have "filter isComplete (map snd tr) = filter isComplete (filter (\<lambda>e. \<not> isCall e) (map snd tr))"
    by (induction tr) (auto elim: isComplete.elims)
  then have "completesOf tr = filter isComplete (filter (\<lambda>e. \<not> isCall e) (map snd tr))"
    by (simp only: completesOf_def)
  then show ?thesis by (simp only: mset_filter)
qed

lemma errors_from_settles:
  "mset (errorsOf tr) = filter_mset isError (mset (filter (\<lambda>e. \<not> isCall e) (map snd tr)))"
proof -
  have "filter isError (map snd tr) = filter isError (filter (\<lambda>e. \<not> isCall e) (map snd tr))"
    by (induction tr) (auto elim: isError.elims)
  then have "errorsOf tr = filter isError (filter (\<lambda>e. \<not> isCall e) (map snd tr))"
    by (simp only: errorsOf_def)
  then show ?thesis by (simp only: mset_filter)
qed

lemma sibling_times:
  assumes "outcome env 0 = Inr u1" and "outcome env 1 = Inl msg"
  shows "(t0 + latency env 0, StyleComplete 0 (cfg_id c1) u1)
           \<in> set (trace (generateAllStyles env identity [c1, c2, c3, c4] ref t0))"
    and "(t0 + 500 + timerLag env 1 + latency env 1, StyleError 1 (cfg_id c2) msg)
           \<in> set (trace (generateAllStyles env identity [c1, c2, c3, c4] ref t0))"
  unfolding set_trace_generateAllStyles
  using assms
  by (simp_all add: requestEvents_def issuedAt_def settledAt_def settleEvent_def
      upt_conv_Cons)

text \<open>
  C2. Four requests, of which the remote call of the second fails and the others succeed,
  whatever the latencies: \<open>generateArt\<close> is called once for each request, in list order,
  and never again; \<open>onStyleComplete\<close> is called exactly for the first, third and fourth
  request, with their results; \<open>onStyleError\<close> is called exactly once, for the second, with
  the message of its error; these 8 events are all. The first request completes at its
  own time, whether the second has failed before or not. The returned map has exactly
  the ids of the first, third and fourth request as keys, and when these ids differ it
  maps each to the result of its request.
\<close>

theorem four_requests_second_fails:
  assumes "outcome env 0 = Inr u1" and "outcome env 1 = Inl msg"
    and "outcome env 2 = Inr u3" and "outcome env 3 = Inr u4"
  shows "callsOf (trace (generateAllStyles env identity [c1, c2, c3, c4] ref t0)) =
           [GenerateArtCalled 0 identity c1 ref, GenerateArtCalled 1 identity c2 ref,
            GenerateArtCalled 2 identity c3 ref, GenerateArtCalled 3 identity c4 ref]
       \<and> mset (completesOf (trace (generateAllStyles env identity [c1, c2, c3, c4] ref t0))) =
           {#StyleComplete 0 (cfg_id c1) u1, StyleComplete 2 (cfg_id c3) u3,
             StyleComplete 3 (cfg_id c4) u4#}
       \<and> errorsOf (trace (generateAllStyles env identity [c1, c2, c3, c4] ref t0)) =
           [StyleError 1 (cfg_id c2) msg]
       \<and> length (trace (generateAllStyles env identity [c1, c2, c3, c4] ref t0)) = 8
       \<and> (t0 + latency env 0, StyleComplete 0 (cfg_id c1) u1)
            \<in> set (trace (generateAllStyles env identity [c1, c2, c3, c4] ref t0))
       \<and> (t0 + 500 + timerLag env 1 + latency env 1, StyleError 1 (cfg_id c2) msg)
            \<in> set (trace (generateAllStyles env identity [c1, c2, c3, c4] ref t0))
       \<and> dom (results (generateAllStyles env identity [c1, c2, c3, c4] ref t0)) =
           {cfg_id c1, cfg_id c3, cfg_id c4}
       \<and> (distinct [cfg_id c1, cfg_id c3, cfg_id c4] \<longrightarrow>
            results (generateAllStyles env identity [c1, c2, c3, c4] ref t0) =
              [cfg_id c1 \<mapsto> u1, cfg_id c3 \<mapsto> u3, cfg_id c4 \<mapsto> u4])"
proof -
  let ?cs = "[c1, c2, c3, c4]"
  let ?st0 = "\<lparr>clock = t0, results = Map.empty, trace = []\<rparr>"
  let ?st1 = "runWindow env identity ref ?cs 0 ?st0"
  let ?r = "generateAllStyles env identity ?cs ref t0"
  have r: "?r = runWindow env identity ref ?cs (Suc (Suc 0)) ?st1"
    by (simp add: generateAllStyles_def loop_step loop_done MAX_CONCURRENT_def)
  have s0: "settleEvent env 0 c1 = StyleComplete 0 (cfg_id c1) u1"
    and s1: "settleEvent env (Suc 0) c2 = StyleError 1 (cfg_id c2) msg"
    and s2: "settleEvent env (Suc (Suc 0)) c3 = StyleComplete 2 (cfg_id c3) u3"
    and s3: "settleEvent env (Suc (Suc (Suc 0))) c4 = StyleComplete 3 (cfg_id c4) u4"
    using assms by (simp_all add: settleEvent_def numeral_3_eq_3 eval_nat_numeral)
  have calls: "callsOf (trace ?r) =
           [GenerateArtCalled 0 identity c1 ref, GenerateArtCalled 1 identity c2 ref,
            GenerateArtCalled 2 identity c3 ref, GenerateArtCalled 3 identity c4 ref]"
    using pair_calls [of "Suc (Suc 0)" ?cs env identity ref ?st1] pair_calls [of 0 ?cs env identity ref ?st0]
    by (simp add: r callsOf_def eval_nat_numeral)
  have settles: "mset (filter (\<lambda>e. \<not> isCall e) (map snd (trace ?r))) =
      {#StyleComplete 0 (cfg_id c1) u1, StyleError 1 (cfg_id c2) msg,
        StyleComplete 2 (cfg_id c3) u3, StyleComplete 3 (cfg_id c4) u4#}"
    using pair_settles [of "Suc (Suc 0)" ?cs env identity ref ?st1] pair_settles [of 0 ?cs env identity ref ?st0]
      s0 s1 s2 s3
    by (simp add: r eval_nat_numeral)
  have completes: "mset (completesOf (trace ?r)) =
           {#StyleComplete 0 (cfg_id c1) u1, StyleComplete 2 (cfg_id c3) u3,
             StyleComplete 3 (cfg_id c4) u4#}"
    unfolding completes_from_settles settles by simp
  have "mset (errorsOf (trace ?r)) = {#StyleError 1 (cfg_id c2) msg#}"
    unfolding errors_from_settles settles by simp
  then have errors: "errorsOf (trace ?r) = [StyleError 1 (cfg_id c2) msg]"
    by (simp add: del: mset_filter)
  have len: "length (trace ?r) = 8"
    using mset_trace_generateLoop [of 0 ?st0 env t0 identity ref ?cs]
      size_mset [of "trace ?r"]
    by (simp add: generateAllStyles_def requestEvents_def upt_conv_Cons del: size_mset)
  have res1: "results ?st1 = [cfg_id c1 \<mapsto> u1]"
    using pair_results [of 0 ?cs env identity ref ?st0] s0 s1 by auto
  have res: "results ?r = [cfg_id c1 \<mapsto> u1, cfg_id c3 \<mapsto> u3, cfg_id c4 \<mapsto> u4]
      \<or> results ?r = [cfg_id c1 \<mapsto> u1, cfg_id c4 \<mapsto> u4, cfg_id c3 \<mapsto> u3]"
    using pair_results [of "Suc (Suc 0)" ?cs env identity ref ?st1] s2 s3
    by (simp add: r res1 eval_nat_numeral)
  have dm: "dom (results ?r) = {cfg_id c1, cfg_id c3, cfg_id c4}"
  proof -
    have a: "dom [cfg_id c1 \<mapsto> u1, cfg_id c3 \<mapsto> u3, cfg_id c4 \<mapsto> u4]
        = {cfg_id c1, cfg_id c3, cfg_id c4}"
      by (simp only: dom_fun_upd dom_empty option.simps if_False) blast
    have b: "dom [cfg_id c1 \<mapsto> u1, cfg_id c4 \<mapsto> u4, cfg_id c3 \<mapsto> u3]
        = {cfg_id c1, cfg_id c3, cfg_id c4}"
      by (simp only: dom_fun_upd dom_empty option.simps if_False) blast
    from res a b show ?thesis by (elim disjE) (simp_all only:)
  qed
  have ex: "distinct [cfg_id c1, cfg_id c3, cfg_id c4] \<longrightarrow>
            results ?r = [cfg_id c1 \<mapsto> u1, cfg_id c3 \<mapsto> u3, cfg_id c4 \<mapsto> u4]"
    using res by (auto simp add: fun_upd_twist)
  note sib = sibling_times [OF assms(1,2)]
  from calls completes errors len sib dm ex show ?thesis by blast
qed

theorem four_requests_second_fails_witness:
  "outcome demoRemote 0 = Inr ''https://cdn.example/art.jpg''
   \<and> outcome demoRemote 1 = Inl ''Request failed: 500''
   \<and> outcome demoRemote 2 = Inr ''https://cdn.example/art.jpg''
   \<and> outcome demoRemote 3 = Inr ''https://cdn.example/art.jpg''
   \<and> errorsOf (trace (generateAllStyles demoRemote supraIdentity demoStyleConfigs None 0))
       = [StyleError 1 Neon ''Request failed: 500'']
   \<and> length (trace (generateAllStyles demoRemote supraIdentity demoStyleConfigs None 0)) = 8
   \<and> results (generateAllStyles demoRemote supraIdentity demoStyleConfigs None 0)
       = [Japanese \<mapsto> ''https://cdn.example/art.jpg'', Comic \<mapsto> ''https://cdn.example/art.jpg'',
          Neon80s \<mapsto> ''https://cdn.example/art.jpg'']"
proof -
  have o: "outcome demoRemote 0 = Inr ''https://cdn.example/art.jpg''"
    "outcome demoRemote 1 = Inl ''Request failed: 500''"
    "outcome demoRemote 2 = Inr ''https://cdn.example/art.jpg''"
    "outcome demoRemote 3 = Inr ''https://cdn.example/art.jpg''"
    by (simp_all add: demoRemote_def)
  show ?thesis
    using o four_requests_second_fails [OF o, of supraIdentity
        "mkStyle Japanese ''JDM Style'' [0x1F5FE] ''JDM Japanese'' ''#000000''"
        "mkStyle Neon ''Neon Glow'' [0x1F4A1] ''Neon Sign'' ''#000000''"
        "mkStyle Comic ''Comic Book'' [0x1F4A5] ''Comic Book'' ''#FFFFFF''"
        "mkStyle Neon80s ''80s Synthwave'' [0x1F306] ''Synthwave 80s'' ''#1a0033''" None 0]
    by (simp add: demoStyleConfigs_def mkStyle_def)
qed

end
